theory Spec2Isabelle
  imports Main "HOL-Library.AList"
begin

text \<open>
  A shallow embedding of the coordination core of zapi: the outage deduper, the event
  server with its remote subscriber, the message bus, the heartbeat aggregator of the
  worker and the job queue server.  Every JavaScript function is a HOL function on an
  explicit state; \<^verbatim>\<open>Date.now()\<close>, \<^verbatim>\<open>Math.random()\<close>, the process environment and the
  replies of the Redis client are arguments.  A \<^verbatim>\<open>throw\<close> is a value of the result; a
  \<^verbatim>\<open>try { ... } catch {}\<close> is the branch that discards it.
\<close>

section \<open>OutageDeduper\<close>

text \<open>
  The module keeps one \<^verbatim>\<open>Map\<close> from resource key to an outage record.  A record
  that was never stored reads as \<^verbatim>\<open>{ down: false }\<close>.  \<^verbatim>\<open>meta.reason || null\<close> is an
  optional string.
\<close>

record outage =
  o_down :: bool
  lastAt :: "int option"
  lastReason :: "string option"
  lastUpAt :: "int option"
  lastUpMeta :: "string option"

type_synonym outage_states = "string \<rightharpoonup> outage"

record outage_result =
  emitted :: bool
  emitted_meta :: "outage option"

definition fresh_outage :: outage where
  "fresh_outage = \<lparr>o_down = False, lastAt = None, lastReason = None, lastUpAt = None, lastUpMeta = None\<rparr>"

definition get_or_fresh :: "outage_states \<Rightarrow> string \<Rightarrow> outage" where
  "get_or_fresh states key = (case states key of Some s \<Rightarrow> s | None \<Rightarrow> fresh_outage)"

definition isDown :: "outage_states \<Rightarrow> string \<Rightarrow> bool" where
  "isDown states key = (case states key of Some s \<Rightarrow> o_down s | None \<Rightarrow> False)"

definition down :: "string \<Rightarrow> string option \<Rightarrow> int \<Rightarrow> outage_states \<Rightarrow> outage_result \<times> outage_states" where
  "down key reason now states =
     (let s = get_or_fresh states key in
      if o_down s then (\<lparr>emitted = False, emitted_meta = None\<rparr>, states)
      else (let s' = s\<lparr>o_down := True, lastAt := Some now, lastReason := reason\<rparr>
            in (\<lparr>emitted = True, emitted_meta = Some s'\<rparr>, states(key \<mapsto> s'))))"

definition up :: "string \<Rightarrow> string option \<Rightarrow> int \<Rightarrow> outage_states \<Rightarrow> outage_result \<times> outage_states" where
  "up key meta now states =
     (let s = get_or_fresh states key;
          wasDown = o_down s;
          s' = s\<lparr>o_down := False, lastUpAt := Some now, lastUpMeta := meta\<rparr>
      in (\<lparr>emitted = wasDown, emitted_meta = None\<rparr>, states(key \<mapsto> s')))"

text \<open>A call of the module, and a run of calls that collects every \<open>emitted\<close> flag.\<close>

datatype outage_call = Down string "string option" int | Up string "string option" int

fun outage_step :: "outage_call \<Rightarrow> outage_states \<Rightarrow> outage_result \<times> outage_states" where
  "outage_step (Down key reason now) states = down key reason now states"
| "outage_step (Up key meta now) states = up key meta now states"

fun outage_run :: "outage_call list \<Rightarrow> outage_states \<Rightarrow> bool list \<times> outage_states" where
  "outage_run [] states = ([], states)"
| "outage_run (c # cs) states =
     (let (r, states') = outage_step c states;
          (rs, states'') = outage_run cs states'
      in (emitted r # rs, states''))"

section \<open>Node's EventEmitter\<close>

text \<open>
  \<^verbatim>\<open>EventServer\<close> and \<^verbatim>\<open>MessageBus\<close> deliver through an \<^verbatim>\<open>EventEmitter\<close> of
  \<^verbatim>\<open>node:events\<close>.  What the code relies on: \<^verbatim>\<open>on\<close> appends a listener to a channel (the
  same function may be added twice and is then called twice); \<^verbatim>\<open>emit\<close> calls the
  listeners of the channel synchronously in the order they were added; an exception of a
  listener leaves \<^verbatim>\<open>emit\<close> at once, so the later listeners are not called; \<^verbatim>\<open>emit('error')\<close>
  on a channel without listeners throws.

  A handler is application code: it has an identity and may throw on an argument.  A
  listener is the function that was passed to \<^verbatim>\<open>on\<close>: a guard that decides whether the
  handler is called (the closure \<^verbatim>\<open>fn\<close> of \<^verbatim>\<open>EventServer.subscribe\<close>), and the handler.
  What happens is recorded in a trace: every \<^verbatim>\<open>emit\<close>, every call of a handler, every call
  of an adapter's \<^verbatim>\<open>publish\<close>.
\<close>

datatype 'a handler = Handler (hid: nat) (throws_on: "'a \<Rightarrow> bool")

datatype 'a listener = Listener (guard: "'a \<Rightarrow> bool") (target: "'a handler")

datatype 'a delivery = Emit string 'a | Called nat 'a | AdapterPublish nat 'a

type_synonym 'a emitter = "(string \<times> 'a listener) list"

definition on :: "string \<Rightarrow> 'a listener \<Rightarrow> 'a emitter \<Rightarrow> 'a emitter" where
  "on ch l em = em @ [(ch, l)]"

definition listeners_on :: "'a emitter \<Rightarrow> string \<Rightarrow> 'a listener list" where
  "listeners_on em ch = map snd (filter (\<lambda>p. fst p = ch) em)"

text \<open>The result of calling listeners: whether one threw, and the calls made until then.\<close>

fun call_all :: "'a listener list \<Rightarrow> 'a \<Rightarrow> bool \<times> 'a delivery list" where
  "call_all [] a = (False, [])"
| "call_all (l # ls) a =
     (if guard l a then
        (if throws_on (target l) a then (True, [Called (hid (target l)) a])
         else (fst (call_all ls a), Called (hid (target l)) a # snd (call_all ls a)))
      else call_all ls a)"

definition emit :: "'a emitter \<Rightarrow> string \<Rightarrow> 'a \<Rightarrow> bool \<times> 'a delivery list" where
  "emit em ch a =
     (if listeners_on em ch = [] then (ch = ''error'', [Emit ch a])
      else (fst (call_all (listeners_on em ch) a), Emit ch a # snd (call_all (listeners_on em ch) a)))"

text \<open>Projections of a trace: the arguments a handler was called with, the envelopes an
  adapter was given, the emits.\<close>

fun calls_to :: "nat \<Rightarrow> 'a delivery list \<Rightarrow> 'a list" where
  "calls_to i [] = []"
| "calls_to i (Called j a # ds) = (if j = i then a # calls_to i ds else calls_to i ds)"
| "calls_to i (Emit ch a # ds) = calls_to i ds"
| "calls_to i (AdapterPublish j a # ds) = calls_to i ds"

fun adapter_calls_to :: "nat \<Rightarrow> 'a delivery list \<Rightarrow> 'a list" where
  "adapter_calls_to i [] = []"
| "adapter_calls_to i (AdapterPublish j a # ds) = (if j = i then a # adapter_calls_to i ds else adapter_calls_to i ds)"
| "adapter_calls_to i (Emit ch a # ds) = adapter_calls_to i ds"
| "adapter_calls_to i (Called j a # ds) = adapter_calls_to i ds"

fun emits :: "'a delivery list \<Rightarrow> (string \<times> 'a) list" where
  "emits [] = []"
| "emits (Emit ch a # ds) = (ch, a) # emits ds"
| "emits (Called j a # ds) = emits ds"
| "emits (AdapterPublish j a # ds) = emits ds"

section \<open>EventServer\<close>

text \<open>
  The envelope that \<^verbatim>\<open>publish\<close> builds.  The header fields that the remote subscriber
  compares are optional, because an envelope received from the remote store is whatever
  \<^verbatim>\<open>JSON.parse\<close> returned: \<open>None\<close> stands for a field that is missing or is not of the
  type.  The other keys of \<^verbatim>\<open>state.meta\<close> are not modelled.
\<close>

record 'p envelope =
  event :: string
  origin :: "string option"
  ts :: int
  status :: string
  pid :: "int option"
  workerIndex :: "int option"
  role :: string
  eventPayload :: 'p

text \<open>\<^verbatim>\<open>process.pid\<close> and the environment variables read by \<^verbatim>\<open>publish\<close>;
  \<open>WORKER_INDEX\<close> is \<^verbatim>\<open>Number(process.env.WORKER_INDEX ?? -1)\<close>, taken to be an integer.\<close>

record process_env =
  process_pid :: int
  WORKER_INDEX :: int
  ZAPI_SERVER_NAME :: "string option"
  ZAPI_PRIMARY :: bool

text \<open>
  The adapters of the repository: \<^verbatim>\<open>SystemEventService\<close> registers one that emits the
  envelope again on the local emitter, on the envelope's own channel, inside a
  \<^verbatim>\<open>try/catch\<close>; \<^verbatim>\<open>RedisEventService\<close> and \<^verbatim>\<open>WsEventService\<close> register transports that send
  it elsewhere.  \<open>adapters\<close> is a JavaScript \<^verbatim>\<open>Set\<close>: insertion order, no object twice.
\<close>

datatype adapter = LocalEcho (adapter_id: nat) | Transport (adapter_id: nat)

record 'p event_server =
  started :: bool
  buffer :: "'p envelope list"
  local :: "'p envelope emitter"
  adapters :: "adapter list"
  trace :: "'p envelope delivery list"

definition EventServer_new :: "'p event_server" where
  "EventServer_new = \<lparr>started = False, buffer = [], local = [], adapters = [], trace = []\<rparr>"

definition registerAdapter :: "adapter \<Rightarrow> 'p event_server \<Rightarrow> 'p event_server" where
  "registerAdapter ad es =
     (if adapter_id ad \<in> adapter_id ` set (adapters es) then es
      else es\<lparr>adapters := adapters es @ [ad]\<rparr>)"

text \<open>\<open>health\<close> is \<^verbatim>\<open>Health.getState().status\<close>, \<open>None\<close> when no health service resolves.\<close>

definition mk_envelope :: "process_env \<Rightarrow> string option \<Rightarrow> int \<Rightarrow> string \<Rightarrow> 'p \<Rightarrow> 'p envelope" where
  "mk_envelope pe health now ev payload =
     \<lparr>event = ev,
      origin = Some (case ZAPI_SERVER_NAME pe of None \<Rightarrow> ''zapiAppServer''
                     | Some n \<Rightarrow> if n = [] then ''zapiAppServer'' else n),
      ts = now,
      status = (case health of None \<Rightarrow> ''Ok'' | Some s \<Rightarrow> if s = [] then ''Ok'' else s),
      pid = Some (process_pid pe),
      workerIndex = Some (WORKER_INDEX pe),
      role = (if ZAPI_PRIMARY pe then ''primary'' else ''worker''),
      eventPayload = payload\<rparr>"

fun adapter_publish :: "'p envelope emitter \<Rightarrow> 'p envelope \<Rightarrow> adapter \<Rightarrow> 'p envelope delivery list" where
  "adapter_publish em env (Transport i) = [AdapterPublish i env]"
| "adapter_publish em env (LocalEcho i) = AdapterPublish i env # snd (emit em (event env) env)"

text \<open>
  The three statements that \<^verbatim>\<open>publish\<close> (when started) and the loop of \<^verbatim>\<open>start\<close> share:
  \<^verbatim>\<open>local.emit(env.event, env); local.emit('*', env); for (ad of adapters) try { await
  ad.publish(env) } catch {}\<close>.  The result says whether an emit threw, and what was
  delivered until then.  The awaits are not modelled: a delivery is one step.
\<close>

definition deliver :: "'p envelope emitter \<Rightarrow> adapter list \<Rightarrow> 'p envelope \<Rightarrow> bool \<times> 'p envelope delivery list" where
  "deliver em ads env =
     (if fst (emit em (event env) env) then (True, snd (emit em (event env) env))
      else if fst (emit em ''*'' env)
        then (True, snd (emit em (event env) env) @ snd (emit em ''*'' env))
      else (False, snd (emit em (event env) env) @ snd (emit em ''*'' env)
                     @ concat (map (adapter_publish em env) ads)))"

text \<open>\<^verbatim>\<open>publish\<close> returns whether it threw (its promise rejected), and the new state.\<close>

definition EventServer_publish ::
  "process_env \<Rightarrow> string option \<Rightarrow> int \<Rightarrow> string \<Rightarrow> 'p \<Rightarrow> 'p event_server \<Rightarrow> bool \<times> 'p event_server" where
  "EventServer_publish pe health now ev payload es =
     (let env = mk_envelope pe health now ev payload in
      if \<not> started es then (False, es\<lparr>buffer := buffer es @ [env]\<rparr>)
      else (fst (deliver (local es) (adapters es) env),
            es\<lparr>trace := trace es @ snd (deliver (local es) (adapters es) env)\<rparr>))"

text \<open>The loop of \<^verbatim>\<open>start\<close> over \<^verbatim>\<open>this._buffer.splice(0)\<close>, inside its \<^verbatim>\<open>try { } catch {}\<close>:
  a throw ends the loop.\<close>

fun drain :: "'p envelope list \<Rightarrow> 'p event_server \<Rightarrow> 'p event_server" where
  "drain [] es = es"
| "drain (env # rest) es =
     (if fst (deliver (local es) (adapters es) env)
      then es\<lparr>trace := trace es @ snd (deliver (local es) (adapters es) env)\<rparr>
      else drain rest (es\<lparr>trace := trace es @ snd (deliver (local es) (adapters es) env)\<rparr>))"

definition EventServer_start :: "'p event_server \<Rightarrow> 'p event_server" where
  "EventServer_start es = drain (buffer es) (es\<lparr>started := True, buffer := []\<rparr>)"

definition EventServer_stop :: "'p event_server \<Rightarrow> 'p event_server" where
  "EventServer_stop es = es\<lparr>started := False, local := []\<rparr>"

definition endsWith_star :: "string \<Rightarrow> bool" where
  "endsWith_star topic = (topic \<noteq> [] \<and> last topic = CHR ''*'')"

definition startsWith :: "string \<Rightarrow> string \<Rightarrow> bool" where
  "startsWith s p = (take (length p) s = p)"

text \<open>The closure \<^verbatim>\<open>fn\<close> of \<^verbatim>\<open>subscribe\<close>; \<^verbatim>\<open>topic.slice(0, -1)\<close> is \<open>butlast topic\<close>.\<close>

definition subscribe_fn :: "string \<Rightarrow> 'p envelope handler \<Rightarrow> 'p envelope listener" where
  "subscribe_fn topic h =
     Listener (\<lambda>env. if topic = ''*'' \<or> topic = ''zapi:*'' then True
                      else if event env = topic then True
                      else if endsWith_star topic then startsWith (event env) (butlast topic)
                      else False) h"

definition EventServer_subscribe :: "string \<Rightarrow> 'p envelope handler \<Rightarrow> 'p event_server \<Rightarrow> 'p event_server" where
  "EventServer_subscribe topic h es =
     (let fn = subscribe_fn topic h;
          isWild = (topic = ''*'' \<or> endsWith_star topic);
          l1 = (if isWild then on ''*'' fn (local es) else local es)
      in es\<lparr>local := on topic fn l1\<rparr>)"

definition EventServer_any :: "'p envelope handler \<Rightarrow> 'p event_server \<Rightarrow> 'p event_server" where
  "EventServer_any h es = es\<lparr>local := on ''*'' (Listener (\<lambda>_. True) h) (local es)\<rparr>"

text \<open>A sequence of \<^verbatim>\<open>publish\<close> calls, and what one \<^verbatim>\<open>publish\<close> adds to the trace.\<close>

datatype 'p publish_call = Publish process_env "string option" int string 'p

fun envelope_of :: "'p publish_call \<Rightarrow> 'p envelope" where
  "envelope_of (Publish pe health now ev payload) = mk_envelope pe health now ev payload"

fun publish_all :: "'p publish_call list \<Rightarrow> 'p event_server \<Rightarrow> 'p event_server" where
  "publish_all [] es = es"
| "publish_all (Publish pe health now ev payload # cs) es =
     publish_all cs (snd (EventServer_publish pe health now ev payload es))"

definition delivered_by_publish ::
  "process_env \<Rightarrow> string option \<Rightarrow> int \<Rightarrow> string \<Rightarrow> 'p \<Rightarrow> 'p event_server \<Rightarrow> 'p envelope delivery list" where
  "delivered_by_publish pe health now ev payload es =
     drop (length (trace es)) (trace (snd (EventServer_publish pe health now ev payload es)))"

text \<open>Handlers and a process environment for the examples.\<close>

definition never_throws :: "nat \<Rightarrow> 'a handler" where
  "never_throws i = Handler i (\<lambda>_. False)"

definition always_throws :: "nat \<Rightarrow> 'a handler" where
  "always_throws i = Handler i (\<lambda>_. True)"

definition worker_env :: process_env where
  "worker_env = \<lparr>process_pid = 4242, WORKER_INDEX = 0, ZAPI_SERVER_NAME = None, ZAPI_PRIMARY = False\<rparr>"

section \<open>RedisEventService\<close>

text \<open>
  The function that \<^verbatim>\<open>start()\<close> passes to \<^verbatim>\<open>this.sub.on('pmessage', ...)\<close>, with the
  identity it closes over: \<^verbatim>\<open>selfPid\<close>, \<^verbatim>\<open>selfWI\<close> and \<^verbatim>\<open>selfOrigin\<close>.  A received message
  either fails \<^verbatim>\<open>JSON.parse\<close> or is an envelope; the whole body is inside
  \<^verbatim>\<open>try { } catch {}\<close>.
\<close>

record self_identity =
  selfPid :: int
  selfWI :: int
  selfOrigin :: "string option"

datatype 'p message = Unparseable | Parsed "'p envelope"

definition is_self :: "self_identity \<Rightarrow> 'p envelope \<Rightarrow> bool" where
  "is_self self env =
     (pid env = Some (selfPid self) \<and> workerIndex env = Some (selfWI self) \<and> origin env = selfOrigin self)"

definition RedisEventService_pmessage ::
  "self_identity \<Rightarrow> string \<Rightarrow> 'p message \<Rightarrow> 'p event_server \<Rightarrow> 'p event_server" where
  "RedisEventService_pmessage self channel message es =
     (case message of
        Unparseable \<Rightarrow> es
      | Parsed env \<Rightarrow>
          if is_self self env then es
          else if fst (emit (local es) channel env)
            then es\<lparr>trace := trace es @ snd (emit (local es) channel env)\<rparr>
          else es\<lparr>trace := trace es @ snd (emit (local es) channel env) @ snd (emit (local es) ''*'' env)\<rparr>)"

definition reemitted :: "self_identity \<Rightarrow> string \<Rightarrow> 'p message \<Rightarrow> 'p event_server \<Rightarrow> (string \<times> 'p envelope) list" where
  "reemitted self channel message es =
     emits (drop (length (trace es)) (trace (RedisEventService_pmessage self channel message es)))"

text \<open>
  \<^verbatim>\<open>start()\<close>.  The file begins with \<^verbatim>\<open>const { getServerName } = require('../Config')\<close>, and
  the configuration module ends with \<^verbatim>\<open>module.exports = { loadConfig, getConfig, setConfig,
  deepMerge, appDirCandidates }\<close>: a name that is not exported is \<^verbatim>\<open>undefined\<close> after the
  destructuring, and calling it throws a \<^verbatim>\<open>TypeError\<close>.  The statements of \<^verbatim>\<open>start()\<close> in
  order: return when no event server resolves; create the two clients from
  \<^verbatim>\<open>this.cache.duplicate\<close> or from \<^verbatim>\<open>cfg.redis\<close>, else return; register the adapter on the
  event server; \<^verbatim>\<open>await this.sub.psubscribe('zapi:*')\<close>, which may reject; read the process
  identity and call \<^verbatim>\<open>getServerName()\<close>; attach the pmessage listener.  The result says
  whether \<^verbatim>\<open>start()\<close> threw, what the service holds afterwards, and the event server.
  \<open>server_name\<close> is what \<^verbatim>\<open>getServerName()\<close> would return if the module exported it.
\<close>

definition Config_exports :: "string list" where
  "Config_exports = [''loadConfig'', ''getConfig'', ''setConfig'', ''deepMerge'', ''appDirCandidates'']"

record redis_start_env =
  eventServer_resolved :: bool
  cache_duplicate :: bool
  start_cfg_redis :: bool
  psubscribe_rejects :: bool
  start_pid :: int
  start_WORKER_INDEX :: int
  server_name :: "string option"
  redis_adapter_id :: nat

record redis_event_service =
  clients_created :: bool
  psubscribed :: bool
  pmessage_listener :: "self_identity option"

definition RedisEventService_new :: redis_event_service where
  "RedisEventService_new = \<lparr>clients_created = False, psubscribed = False, pmessage_listener = None\<rparr>"

definition RedisEventService_start ::
  "redis_start_env \<Rightarrow> 'p event_server \<Rightarrow> bool \<times> redis_event_service \<times> 'p event_server" where
  "RedisEventService_start env es =
     (if \<not> eventServer_resolved env then (False, RedisEventService_new, es)
      else if \<not> cache_duplicate env \<and> \<not> start_cfg_redis env then (False, RedisEventService_new, es)
      else (let es1 = registerAdapter (Transport (redis_adapter_id env)) es in
            if psubscribe_rejects env
              then (True, \<lparr>clients_created = True, psubscribed = False, pmessage_listener = None\<rparr>, es1)
            else if ''getServerName'' \<notin> set Config_exports
              then (True, \<lparr>clients_created = True, psubscribed = True, pmessage_listener = None\<rparr>, es1)
            else (False,
                  \<lparr>clients_created = True, psubscribed = True,
                   pmessage_listener = Some \<lparr>selfPid = start_pid env, selfWI = start_WORKER_INDEX env,
                                              selfOrigin = server_name env\<rparr>\<rparr>,
                  es1)))"

text \<open>A message that the subscriber client receives: it emits \<^verbatim>\<open>'pmessage'\<close>, and only an
  attached listener does anything with it.\<close>

definition RedisEventService_received ::
  "redis_event_service \<Rightarrow> string \<Rightarrow> 'p message \<Rightarrow> 'p event_server \<Rightarrow> 'p event_server" where
  "RedisEventService_received svc channel message es =
     (case pmessage_listener svc of
        None \<Rightarrow> es
      | Some self \<Rightarrow> RedisEventService_pmessage self channel message es)"

definition this_worker :: self_identity where
  "this_worker = \<lparr>selfPid = 4242, selfWI = 0, selfOrigin = Some ''zapiAppServer''\<rparr>"

definition leader_start_env :: redis_start_env where
  "leader_start_env = \<lparr>eventServer_resolved = True, cache_duplicate = False, start_cfg_redis = True,
     psubscribe_rejects = False, start_pid = 4242, start_WORKER_INDEX = 0,
     server_name = Some ''zapiAppServer'', redis_adapter_id = 9\<rparr>"

section \<open>MessageBus\<close>

text \<open>
  \<^verbatim>\<open>publish(topic, payload)\<close> starts with \<^verbatim>\<open>String(topic || '').trim()\<close>.  The topic is a
  JavaScript value; \<^verbatim>\<open>trim\<close> removes the white space and line terminators of
  ECMAScript at both ends (those below code point 256 here, since a character of a HOL
  string is a byte).  The payload is opaque.  \<open>remote_published\<close> records the calls of
  \<^verbatim>\<open>this._pub.publish(chan, JSON.stringify(payload))\<close>, whose failures are caught.
\<close>

datatype js_value = JUndefined | JNull | JBool bool | JNum int | JStr string

definition digit_char :: "nat \<Rightarrow> char" where
  "digit_char d = char_of (48 + d)"

fun decimal :: "nat \<Rightarrow> string" where
  "decimal n = (if n < 10 then [digit_char n] else decimal (n div 10) @ [digit_char (n mod 10)])"

declare decimal.simps [simp del]

fun js_truthy :: "js_value \<Rightarrow> bool" where
  "js_truthy JUndefined = False"
| "js_truthy JNull = False"
| "js_truthy (JBool b) = b"
| "js_truthy (JNum n) = (n \<noteq> 0)"
| "js_truthy (JStr s) = (s \<noteq> [])"

fun js_String :: "js_value \<Rightarrow> string" where
  "js_String JUndefined = ''undefined''"
| "js_String JNull = ''null''"
| "js_String (JBool b) = (if b then ''true'' else ''false'')"
| "js_String (JNum n) = (if n < 0 then CHR ''-'' # decimal (nat (- n)) else decimal (nat n))"
| "js_String (JStr s) = s"

definition is_js_whitespace :: "char \<Rightarrow> bool" where
  "is_js_whitespace c = (of_char c \<in> {9, 10, 11, 12, 13, 32, 160 :: nat})"

definition js_trim :: "string \<Rightarrow> string" where
  "js_trim s = rev (dropWhile is_js_whitespace (rev (dropWhile is_js_whitespace s)))"

definition topic_of :: "js_value \<Rightarrow> string" where
  "topic_of topic = js_trim (js_String (if js_truthy topic then topic else JStr []))"

record redis_client =
  has_publish :: bool
  client_status :: string

record 'p message_bus =
  bus_prefix :: string
  bus_emitter :: "'p emitter"
  topicCounts :: "(string \<times> nat) list"
  redisAttached :: bool
  bus_pub :: "redis_client option"
  bus_sub :: "redis_client option"
  bus_trace :: "'p delivery list"
  remote_published :: "(string \<times> 'p) list"

definition pub_healthy :: "'p message_bus \<Rightarrow> bool" where
  "pub_healthy bus =
     (redisAttached bus \<and>
      (case bus_pub bus of None \<Rightarrow> False | Some c \<Rightarrow> has_publish c \<and> client_status c \<noteq> ''end''))"

definition MessageBus_publish :: "js_value \<Rightarrow> 'p \<Rightarrow> 'p message_bus \<Rightarrow> 'p message_bus" where
  "MessageBus_publish topic payload bus =
     (let t = topic_of topic in
      if t = [] then bus
      else (let bus1 = bus\<lparr>bus_trace := bus_trace bus @ snd (emit (bus_emitter bus) t payload)\<rparr>
            in if pub_healthy bus1
               then bus1\<lparr>remote_published := remote_published bus1 @ [(bus_prefix bus1 @ '':'' @ t, payload)]\<rparr>
               else bus1))"

definition MessageBus_subscribe :: "js_value \<Rightarrow> 'p handler \<Rightarrow> 'p message_bus \<Rightarrow> 'p message_bus" where
  "MessageBus_subscribe topic h bus =
     (let t = topic_of topic in
      if t = [] then bus
      else bus\<lparr>bus_emitter := on t (Listener (\<lambda>_. True) h) (bus_emitter bus),
               topicCounts := AList.update t ((case map_of (topicCounts bus) t of None \<Rightarrow> 0 | Some n \<Rightarrow> n) + 1)
                                (topicCounts bus)\<rparr>)"

definition attached_bus :: "'p message_bus" where
  "attached_bus = \<lparr>bus_prefix = ''ws'', bus_emitter = [], topicCounts = [], redisAttached = True,
     bus_pub = Some \<lparr>has_publish = True, client_status = ''ready''\<rparr>,
     bus_sub = Some \<lparr>has_publish = True, client_status = ''ready''\<rparr>,
     bus_trace = [], remote_published = []\<rparr>"

section \<open>WorkerServer: heartbeat aggregation\<close>

text \<open>
  \<open>hbState\<close> is a \<^verbatim>\<open>Map\<close> keyed by \<^verbatim>\<open>`${evt.nodeId}|${evt.pid}`\<close>; with a string \<open>nodeId\<close>
  and an integer \<open>pid\<close> the key determines the pair, so the pair is the key here.  A field
  of the event that is absent is \<open>None\<close>.  \<^verbatim>\<open>Math.round(sum / n)\<close> rounds half up:
  \<open>(2 * sum + n) div (2 * n)\<close> on integers.  The interval publishes the payload through
  \<^verbatim>\<open>eventServer.publish('zapi:sys:heartbeat:snapshot', payload)\<close>; \<open>published\<close> records the
  payloads.  Heartbeats are ingested on the leader only, and the interval exists only on a
  leader with a bus, with system monitoring enabled and an event server.
\<close>

record heartbeat_evt =
  evt_nodeId :: string
  evt_pid :: int
  evt_workerIndex :: "int option"
  evt_ts :: "int option"
  evt_uptimeSec :: "int option"
  evt_rss :: "int option"
  evt_heapUsed :: "int option"

record worker_sample =
  w_pid :: int
  w_nodeId :: string
  w_workerIndex :: int
  w_ts :: int
  w_uptimeSec :: int
  w_rss :: int
  w_heapUsed :: int

type_synonym hb_key = "string \<times> int"
type_synonym hb_state = "(hb_key \<times> worker_sample) list"

definition or_zero :: "int option \<Rightarrow> int" where
  "or_zero v = (case v of None \<Rightarrow> 0 | Some n \<Rightarrow> n)"

definition onWorkerHeartbeat :: "heartbeat_evt option \<Rightarrow> int \<Rightarrow> hb_state \<Rightarrow> hb_state" where
  "onWorkerHeartbeat evt now hbState =
     (case evt of
        None \<Rightarrow> hbState
      | Some e \<Rightarrow>
          AList.update (evt_nodeId e, evt_pid e)
            \<lparr>w_pid = evt_pid e, w_nodeId = evt_nodeId e,
             w_workerIndex = (case evt_workerIndex e of None \<Rightarrow> - 1 | Some i \<Rightarrow> i),
             w_ts = (case evt_ts e of None \<Rightarrow> now | Some t \<Rightarrow> if t = 0 then now else t),
             w_uptimeSec = or_zero (evt_uptimeSec e),
             w_rss = or_zero (evt_rss e),
             w_heapUsed = or_zero (evt_heapUsed e)\<rparr>
            hbState)"

record min_avg_max =
  stat_min :: int
  stat_avg :: int
  stat_max :: int

definition avg :: "int list \<Rightarrow> int" where
  "avg a = (if a = [] then 0 else (2 * sum_list a + int (length a)) div (2 * int (length a)))"

definition max_of :: "int list \<Rightarrow> int" where
  "max_of a = (if a = [] then 0 else fold max (tl a) (hd a))"

definition min_of :: "int list \<Rightarrow> int" where
  "min_of a = (if a = [] then 0 else fold min (tl a) (hd a))"

definition summarize :: "int list \<Rightarrow> min_avg_max" where
  "summarize a = \<lparr>stat_min = min_of a, stat_avg = avg a, stat_max = max_of a\<rparr>"

record heartbeat_snapshot =
  snap_ts :: int
  expected_total :: int
  observed_total :: nat
  stats_uptimeSec :: min_avg_max
  stats_rss :: min_avg_max
  stats_heapUsed :: min_avg_max
  snap_workers :: "worker_sample list option"

record aggregator_config =
  agg_leader :: bool
  agg_bus :: bool
  agg_sysEnabled :: bool
  agg_eventServer :: bool
  agg_detail_full :: bool
  agg_express_workers :: "int option"

definition expectedTotal :: "aggregator_config \<Rightarrow> int" where
  "expectedTotal cfg =
     max 1 (case agg_express_workers cfg of None \<Rightarrow> 1 | Some n \<Rightarrow> if n = 0 then 1 else n)"

definition snapshot_payload :: "aggregator_config \<Rightarrow> int \<Rightarrow> hb_state \<Rightarrow> heartbeat_snapshot" where
  "snapshot_payload cfg now hbState =
     (let workersArr = map snd hbState in
      \<lparr>snap_ts = now,
       expected_total = expectedTotal cfg,
       observed_total = length workersArr,
       stats_uptimeSec = summarize (map w_uptimeSec workersArr),
       stats_rss = summarize (map w_rss workersArr),
       stats_heapUsed = summarize (map w_heapUsed workersArr),
       snap_workers = (if agg_detail_full cfg then Some workersArr else None)\<rparr>)"

datatype agg_input = Heartbeat "heartbeat_evt option" int | Tick int

record aggregator =
  hbState :: hb_state
  published :: "heartbeat_snapshot list"

definition snapshots_enabled :: "aggregator_config \<Rightarrow> bool" where
  "snapshots_enabled cfg = (agg_leader cfg \<and> agg_bus cfg \<and> agg_sysEnabled cfg \<and> agg_eventServer cfg)"

fun agg_step :: "aggregator_config \<Rightarrow> agg_input \<Rightarrow> aggregator \<Rightarrow> aggregator" where
  "agg_step cfg (Heartbeat evt now) a =
     (if agg_leader cfg then a\<lparr>hbState := onWorkerHeartbeat evt now (hbState a)\<rparr> else a)"
| "agg_step cfg (Tick now) a =
     (if snapshots_enabled cfg
      then a\<lparr>published := published a @ [snapshot_payload cfg now (hbState a)]\<rparr>
      else a)"

fun agg_run :: "aggregator_config \<Rightarrow> agg_input list \<Rightarrow> aggregator \<Rightarrow> aggregator" where
  "agg_run cfg [] a = a"
| "agg_run cfg (i # is) a = agg_run cfg is (agg_step cfg i a)"

definition aggregator_new :: aggregator where
  "aggregator_new = \<lparr>hbState = [], published = []\<rparr>"

fun keys_seen :: "agg_input list \<Rightarrow> hb_key list" where
  "keys_seen [] = []"
| "keys_seen (Heartbeat (Some e) now # is) = (evt_nodeId e, evt_pid e) # keys_seen is"
| "keys_seen (Heartbeat None now # is) = keys_seen is"
| "keys_seen (Tick now # is) = keys_seen is"

text \<open>The claim's wording: the samples seen since the last aggregation window are those that
  arrived after the most recent tick.\<close>

fun is_heartbeat :: "agg_input \<Rightarrow> bool" where
  "is_heartbeat (Heartbeat evt now) = True"
| "is_heartbeat (Tick now) = False"

definition since_last_window :: "agg_input list \<Rightarrow> agg_input list" where
  "since_last_window inputs = rev (takeWhile is_heartbeat (rev inputs))"

definition leader_config :: "int \<Rightarrow> aggregator_config" where
  "leader_config n = \<lparr>agg_leader = True, agg_bus = True, agg_sysEnabled = True, agg_eventServer = True,
     agg_detail_full = False, agg_express_workers = Some n\<rparr>"

definition beat :: "string \<Rightarrow> int \<Rightarrow> int \<Rightarrow> heartbeat_evt" where
  "beat node p r = \<lparr>evt_nodeId = node, evt_pid = p, evt_workerIndex = Some 0, evt_ts = None,
     evt_uptimeSec = Some 1, evt_rss = Some r, evt_heapUsed = Some 1\<rparr>"

section \<open>JobQueueServer\<close>

text \<open>
  The state is the object after \<^verbatim>\<open>init()\<close>.  A job id is the pair of \<^verbatim>\<open>Date.now()\<close> and the
  random suffix.  \<open>jobs\<close> and \<open>stats.perRoute\<close> are \<^verbatim>\<open>Map\<close>s with string keys, kept in
  insertion order.  A job definition is application code: \<open>middleware\<close> returns the
  effective payload or throws (\<open>None\<close>), \<open>execute\<close> returns or throws (\<open>False\<close>).
  \<open>redis\<close> says whether \<^verbatim>\<open>this.redis\<close> is set; \<open>remote_jobq_all\<close> is the remote list
  \<^verbatim>\<open>"jobq:_all"\<close>, holding the jobs whose JSON text was pushed; \<open>completed_published\<close>
  records the completion events given to the event server.
\<close>

type_synonym job_id = "int \<times> string"

record 'p job =
  job_id :: job_id
  job_name :: string
  job_payload :: 'p
  job_ts :: int

record job_ctx =
  jobId :: job_id
  jobName :: string

record 'p job_def =
  middleware :: "('p \<Rightarrow> job_ctx \<Rightarrow> 'p option) option"
  execute :: "'p \<Rightarrow> job_ctx \<Rightarrow> bool"

record jq_config =
  cfg_throttlecount :: "int option"
  cfg_throttletime :: "int option"
  cfg_useredis :: bool
  cfg_redis :: bool
  cfg_jobworkerinstances :: "int option"
  cfg_broadcast :: bool
  cfg_leaderOnly :: bool

record jq_options =
  throttlecount :: int
  throttletime :: int
  useredis :: bool
  jobworkerinstances :: int
  broadcast :: bool
  leaderOnly :: bool

record jq_stats =
  totalJobs :: nat
  perRoute :: "(string \<times> nat) list"
  throttleEvents :: nat
  throttledMsTotal :: int

record 'p job_queue =
  jobs :: "(string \<times> 'p job_def) list"
  queue :: "'p job list"
  running :: bool
  stats :: jq_stats
  throttleActive :: bool
  throttleStart :: int
  concurrency :: int
  options :: jq_options
  redis :: bool
  eventServer :: bool
  remote_jobq_all :: "'p job list"
  completed_published :: "(job_id \<times> string \<times> int) list"

datatype jq_error = InvalidJobDefinition | JobNotRegistered string

definition registerJob :: "string \<Rightarrow> 'p job_def \<Rightarrow> 'p job_queue \<Rightarrow> jq_error option \<times> 'p job_queue" where
  "registerJob name def s =
     (if name = [] then (Some InvalidJobDefinition, s)
      else (None, s\<lparr>jobs := AList.update name def (jobs s)\<rparr>))"

fun discoverJobs :: "(string \<times> 'p job_def) list \<Rightarrow> 'p job_queue \<Rightarrow> 'p job_queue" where
  "discoverJobs [] s = s"
| "discoverJobs ((name, def) # defs) s =
     (if name = [] then discoverJobs defs s
      else discoverJobs defs (snd (registerJob name def s)))"

definition JobQueueServer_init ::
  "jq_config \<Rightarrow> bool \<Rightarrow> bool \<Rightarrow> (string \<times> 'p job_def) list \<Rightarrow> 'p job_queue" where
  "JobQueueServer_init cfg redis_usable event_server_found defs =
     (let use = (cfg_useredis cfg \<and> cfg_redis cfg);
          opts = \<lparr>throttlecount = (case cfg_throttlecount cfg of None \<Rightarrow> 100 | Some n \<Rightarrow> n),
                  throttletime = (case cfg_throttletime cfg of None \<Rightarrow> 1 | Some n \<Rightarrow> n),
                  useredis = use,
                  jobworkerinstances = max 1 (case cfg_jobworkerinstances cfg of None \<Rightarrow> 1 | Some n \<Rightarrow> n),
                  broadcast = cfg_broadcast cfg,
                  leaderOnly = cfg_leaderOnly cfg\<rparr>
      in discoverJobs defs
           \<lparr>jobs = [], queue = [], running = False,
            stats = \<lparr>totalJobs = 0, perRoute = [], throttleEvents = 0, throttledMsTotal = 0\<rparr>,
            throttleActive = False, throttleStart = 0,
            concurrency = jobworkerinstances opts,
            options = opts,
            redis = (use \<and> redis_usable),
            eventServer = event_server_found,
            remote_jobq_all = [], completed_published = []\<rparr>)"

definition throttleBegin :: "int \<Rightarrow> 'p job_queue \<Rightarrow> 'p job_queue" where
  "throttleBegin now s =
     s\<lparr>throttleActive := True, throttleStart := now,
       stats := (stats s)\<lparr>throttleEvents := throttleEvents (stats s) + 1\<rparr>\<rparr>"

definition throttleEnd :: "int \<Rightarrow> 'p job_queue \<Rightarrow> 'p job_queue" where
  "throttleEnd now s =
     (let dur = now - (if throttleStart s = 0 then now else throttleStart s)
      in s\<lparr>throttleActive := False, throttleStart := 0,
           stats := (stats s)\<lparr>throttledMsTotal := throttledMsTotal (stats s) + dur\<rparr>\<rparr>)"

definition maybeThrottle :: "int \<Rightarrow> 'p job_queue \<Rightarrow> 'p job_queue" where
  "maybeThrottle now s =
     (if redis s then s
      else (let n = int (length (queue s));
                s1 = (if \<not> throttleActive s \<and> n \<ge> throttlecount (options s) then throttleBegin now s else s)
            in if throttleActive s1 \<and> n < throttlecount (options s1) then throttleEnd now s1 else s1))"

text \<open>
  \<^verbatim>\<open>enqueue\<close> is a synchronous function: it calls \<^verbatim>\<open>this.redis.rpush('jobq:_all',
  JSON.stringify(job))\<close> inside \<^verbatim>\<open>try/catch\<close> and does not await the promise that ioredis
  returns.  So the call has three outcomes: the element is appended to the list; the call
  throws synchronously and the handler of the \<^verbatim>\<open>catch\<close> runs; or the call returns a promise
  that rejects later (how ioredis reports a closed connection), which nothing observes.
\<close>

datatype rpush_outcome = Pushed | PushThrows | PushRejects

record enqueue_env =
  enq_now :: int
  enq_random :: string
  enq_rpush :: rpush_outcome

definition enqueue :: "string \<Rightarrow> 'p \<Rightarrow> enqueue_env \<Rightarrow> 'p job_queue \<Rightarrow> (jq_error + job_id) \<times> 'p job_queue" where
  "enqueue name payload env s =
     (if map_of (jobs s) name = None then (Inl (JobNotRegistered name), s)
      else (let job = \<lparr>job_id = (enq_now env, enq_random env), job_name = name,
                        job_payload = payload, job_ts = enq_now env\<rparr>
            in if redis s then
                 (case enq_rpush env of
                    Pushed \<Rightarrow> (Inr (job_id job), s\<lparr>remote_jobq_all := remote_jobq_all s @ [job]\<rparr>)
                  | PushThrows \<Rightarrow> (Inr (job_id job), maybeThrottle (enq_now env) (s\<lparr>queue := queue s @ [job]\<rparr>))
                  | PushRejects \<Rightarrow> (Inr (job_id job), s))
               else (Inr (job_id job), maybeThrottle (enq_now env) (s\<lparr>queue := queue s @ [job]\<rparr>))))"

definition listJobs :: "'p job_queue \<Rightarrow> string list" where
  "listJobs s = map fst (jobs s)"

record stats_view =
  v_totalJobs :: nat
  v_perRoute :: "(string \<times> nat) list"
  v_throttleEvents :: nat
  v_throttledMsTotal :: int
  v_queueLength :: "nat option"
  v_concurrency :: int
  v_throttleActive :: bool

definition getStats :: "'p job_queue \<Rightarrow> stats_view" where
  "getStats s =
     \<lparr>v_totalJobs = totalJobs (stats s), v_perRoute = perRoute (stats s),
      v_throttleEvents = throttleEvents (stats s), v_throttledMsTotal = throttledMsTotal (stats s),
      v_queueLength = (if redis s then None else Some (length (queue s))),
      v_concurrency = concurrency s, v_throttleActive = throttleActive s\<rparr>"

definition JobQueueServer_start :: "int \<Rightarrow> 'p job_queue \<Rightarrow> 'p job_queue" where
  "JobQueueServer_start idx s = (if leaderOnly (options s) \<and> idx \<noteq> 0 then s else s\<lparr>running := True\<rparr>)"

definition JobQueueServer_stop :: "int \<Rightarrow> 'p job_queue \<Rightarrow> 'p job_queue" where
  "JobQueueServer_stop now s =
     (let s1 = s\<lparr>running := False\<rparr> in if throttleActive s1 then throttleEnd now s1 else s1)"

datatype job_outcome = UnknownJob | MiddlewareThrew | ExecuteThrew | Succeeded

definition job_outcome_of :: "'p job_queue \<Rightarrow> 'p job \<Rightarrow> job_outcome" where
  "job_outcome_of s job =
     (case map_of (jobs s) (job_name job) of
        None \<Rightarrow> UnknownJob
      | Some def \<Rightarrow>
          (let ctx = \<lparr>jobId = job_id job, jobName = job_name job\<rparr> in
           case (case middleware def of None \<Rightarrow> Some (job_payload job)
                                      | Some mw \<Rightarrow> mw (job_payload job) ctx) of
             None \<Rightarrow> MiddlewareThrew
           | Some payload \<Rightarrow> if execute def payload ctx then Succeeded else ExecuteThrew))"

definition run_job :: "'p job \<Rightarrow> int \<Rightarrow> 'p job_queue \<Rightarrow> 'p job_queue" where
  "run_job job now s =
     (if job_outcome_of s job = Succeeded then
        (let count = (case map_of (perRoute (stats s)) (job_name job) of None \<Rightarrow> 0 | Some c \<Rightarrow> c);
             s1 = s\<lparr>stats := (stats s)\<lparr>totalJobs := totalJobs (stats s) + 1,
                                       perRoute := AList.update (job_name job) (count + 1) (perRoute (stats s))\<rparr>\<rparr>
         in if broadcast (options s1) \<and> eventServer s1
            then s1\<lparr>completed_published := completed_published s1 @ [(job_id job, job_name job, now)]\<rparr>
            else s1)
      else s)"

text \<open>
  One iteration of the loop of \<^verbatim>\<open>_pump\<close>, taken as one step: \<^verbatim>\<open>blpop\<close> throws or
  replies with the head of the list (nothing when the list is empty); in memory mode the
  job is \<^verbatim>\<open>this.queue.shift()\<close>.  \<^verbatim>\<open>_active\<close> is incremented and decremented within the
  step and the sleeps change no field, so neither appears.
\<close>

datatype blpop_outcome = BlpopError | BlpopReplied

definition pump_iteration :: "blpop_outcome \<Rightarrow> int \<Rightarrow> 'p job_queue \<Rightarrow> 'p job_queue" where
  "pump_iteration blpop now s =
     (if \<not> running s then s
      else if redis s then
        (case blpop of
           BlpopError \<Rightarrow> s
         | BlpopReplied \<Rightarrow>
             (case remote_jobq_all s of
                [] \<Rightarrow> s
              | job # rest \<Rightarrow> run_job job now (s\<lparr>remote_jobq_all := rest\<rparr>)))
      else
        (case queue s of
           [] \<Rightarrow> s
         | job # rest \<Rightarrow> run_job job now (s\<lparr>queue := rest\<rparr>)))"

datatype 'p jq_call =
    RegisterJob string "'p job_def"
  | Enqueue string 'p enqueue_env
  | Pump blpop_outcome int
  | Start int
  | Stop int

fun jq_step :: "'p jq_call \<Rightarrow> 'p job_queue \<Rightarrow> 'p job_queue" where
  "jq_step (RegisterJob name def) s = snd (registerJob name def s)"
| "jq_step (Enqueue name payload env) s = snd (enqueue name payload env s)"
| "jq_step (Pump blpop now) s = pump_iteration blpop now s"
| "jq_step (Start idx) s = JobQueueServer_start idx s"
| "jq_step (Stop now) s = JobQueueServer_stop now s"

fun jq_run :: "'p jq_call list \<Rightarrow> 'p job_queue \<Rightarrow> 'p job_queue" where
  "jq_run [] s = s"
| "jq_run (c # cs) s = jq_run cs (jq_step c s)"

definition always_succeeds :: "'p job_def" where
  "always_succeeds = \<lparr>middleware = None, execute = (\<lambda>_ _. True)\<rparr>"

definition memory_config :: "int \<Rightarrow> jq_config" where
  "memory_config n = \<lparr>cfg_throttlecount = Some n, cfg_throttletime = None, cfg_useredis = False,
     cfg_redis = False, cfg_jobworkerinstances = None, cfg_broadcast = False, cfg_leaderOnly = False\<rparr>"

definition at_time :: "int \<Rightarrow> enqueue_env" where
  "at_time t = \<lparr>enq_now = t, enq_random = ''k3x9qa'', enq_rpush = Pushed\<rparr>"


definition redis_config :: jq_config where
  "redis_config = \<lparr>cfg_throttlecount = None, cfg_throttletime = None, cfg_useredis = True,
     cfg_redis = True, cfg_jobworkerinstances = None, cfg_broadcast = False, cfg_leaderOnly = False\<rparr>"



section \<open>Properties of the OutageDeduper\<close>

lemma isDown_get_or_fresh: "isDown states key = o_down (get_or_fresh states key)"
  by (simp add: isDown_def get_or_fresh_def fresh_outage_def split: option.splits)

lemma down_emitted: "emitted (fst (down key reason now states)) = (\<not> isDown states key)"
  by (simp add: down_def Let_def isDown_get_or_fresh)

lemma up_emitted: "emitted (fst (up key meta now states)) = isDown states key"
  by (simp add: up_def Let_def isDown_get_or_fresh)

lemma isDown_after_down:
  "isDown (snd (down key reason now states)) k = (if k = key then True else isDown states k)"
  by (simp add: down_def Let_def isDown_def get_or_fresh_def fresh_outage_def split: option.splits)

lemma isDown_after_up:
  "isDown (snd (up key meta now states)) k = (if k = key then False else isDown states k)"
  by (simp add: up_def Let_def isDown_def)

lemma outage_run_Cons:
  "outage_run (c # cs) states =
     (emitted (fst (outage_step c states)) # fst (outage_run cs (snd (outage_step c states))),
      snd (outage_run cs (snd (outage_step c states))))"
  by (simp add: Let_def case_prod_beta)

lemma outage_run_append:
  "outage_run (cs @ ds) states =
     (fst (outage_run cs states) @ fst (outage_run ds (snd (outage_run cs states))),
      snd (outage_run ds (snd (outage_run cs states))))"
  by (induction cs arbitrary: states) (simp_all add: outage_run_Cons del: outage_run.simps(2))

lemma downs_already_down:
  "isDown states key \<Longrightarrow>
     fst (outage_run (map (\<lambda>(r, t). Down key r t) args) states) = replicate (length args) False"
proof (induction args arbitrary: states)
  case Nil
  then show ?case by simp
next
  case (Cons a args)
  obtain r t where a: "a = (r, t)" by (cases a)
  have e: "emitted (fst (down key r t states)) = False"
    using Cons.prems by (simp add: down_emitted)
  have d: "isDown (snd (down key r t states)) key"
    by (simp add: isDown_after_down)
  show ?case
    using Cons.IH [OF d] e by (simp add: a outage_run_Cons del: outage_run.simps(2))
qed

lemma downs_keep_down:
  "isDown states key \<Longrightarrow> isDown (snd (outage_run (map (\<lambda>(r, t). Down key r t) args) states)) key"
proof (induction args arbitrary: states)
  case Nil
  then show ?case by simp
next
  case (Cons a args)
  obtain r t where a: "a = (r, t)" by (cases a)
  have "isDown (snd (down key r t states)) key" by (simp add: isDown_after_down)
  from Cons.IH [OF this] show ?case
    by (simp add: a outage_run_Cons del: outage_run.simps(2))
qed

lemma down_then_downs_then_ups:
  assumes nd: "\<not> isDown states key"
  shows "fst (outage_run (Down key r0 t0 # map (\<lambda>(r, t). Down key r t) args @ [Up key m1 t1, Up key m2 t2]) states)
           = True # replicate (length args) False @ [True, False]"
proof -
  let ?s1 = "snd (down key r0 t0 states)"
  let ?ds = "map (\<lambda>(r, t). Down key r t) args"
  let ?s2 = "snd (outage_run ?ds ?s1)"
  have d1: "isDown ?s1 key" by (simp add: isDown_after_down)
  have mid: "fst (outage_run ?ds ?s1) = replicate (length args) False"
    by (rule downs_already_down [OF d1])
  have d2: "isDown ?s2 key" by (rule downs_keep_down [OF d1])
  have tail: "fst (outage_run [Up key m1 t1, Up key m2 t2] ?s2) = [True, False]"
    using d2 by (simp add: outage_run_Cons up_emitted isDown_after_up del: outage_run.simps(2))
  have "fst (outage_run (Down key r0 t0 # (?ds @ [Up key m1 t1, Up key m2 t2])) states)
          = emitted (fst (down key r0 t0 states)) # fst (outage_run (?ds @ [Up key m1 t1, Up key m2 t2]) ?s1)"
    by (simp add: outage_run_Cons del: outage_run.simps(2))
  also have "\<dots> = True # (replicate (length args) False @ [True, False])"
    using nd mid tail by (simp add: down_emitted outage_run_append)
  finally show ?thesis by simp
qed

text \<open>
  C3.  In every state of the module (so: after any sequence of earlier calls),
  \<open>down key\<close> reports \<open>emitted = True\<close> exactly when the key was not marked down, and
  leaves it marked down; \<open>up key\<close> reports \<open>emitted = True\<close> exactly when the key was marked
  down, and leaves it not marked down; neither changes the mark of another key.  Hence a
  \<open>down\<close> on a key that is not down, followed by any number of further \<open>down\<close> calls on it,
  reports \<open>True\<close> once, on the first call; the \<open>up\<close> after them reports \<open>True\<close> and the
  next \<open>up\<close> reports \<open>False\<close>.
\<close>

theorem outage_deduper_emitted:
  "emitted (fst (down key reason now states)) = (\<not> isDown states key)
   \<and> isDown (snd (down key reason now states)) key
   \<and> emitted (fst (up key meta now states)) = isDown states key
   \<and> \<not> isDown (snd (up key meta now states)) key
   \<and> (k \<noteq> key \<longrightarrow> isDown (snd (down key reason now states)) k = isDown states k
                   \<and> isDown (snd (up key meta now states)) k = isDown states k)
   \<and> (\<not> isDown states key \<longrightarrow>
        fst (outage_run (Down key r0 t0 # map (\<lambda>(r, t). Down key r t) args @ [Up key m1 t1, Up key m2 t2]) states)
          = True # replicate (length args) False @ [True, False])"
  using down_then_downs_then_ups [of states key r0 t0 args m1 t1 m2 t2]
  by (simp add: down_emitted up_emitted isDown_after_down isDown_after_up)

theorem outage_deduper_emitted_witness:
  "''mongo:primary'' \<noteq> ''redis:default'' \<and> \<not> isDown Map.empty ''redis:default'' \<and>
   isDown (snd (down ''redis:default'' None 0 Map.empty)) ''mongo:primary'' = isDown Map.empty ''mongo:primary'' \<and>
   fst (outage_run [Down ''redis:default'' (Some ''ECONNREFUSED'') 1, Down ''redis:default'' None 2,
                    Down ''redis:default'' None 3, Up ''redis:default'' None 4, Up ''redis:default'' None 5]
          Map.empty)
     = [True, False, False, True, False]"
proof -
  have nd: "\<not> isDown Map.empty ''redis:default''" by (simp add: isDown_def)
  have ne: "''mongo:primary'' \<noteq> ''redis:default''" by simp
  show ?thesis
    using nd ne
      outage_deduper_emitted [of "''redis:default''" None 0 Map.empty None "''mongo:primary''"
        "Some ''ECONNREFUSED''" 1 "[(None, 2), (None, 3)]" None 4 None 5]
    by simp
qed

section \<open>Properties of the emitter\<close>

lemma calls_to_append: "calls_to i (xs @ ys) = calls_to i xs @ calls_to i ys"
  by (induction i xs rule: calls_to.induct) simp_all

lemma adapter_calls_to_append: "adapter_calls_to i (xs @ ys) = adapter_calls_to i xs @ adapter_calls_to i ys"
  by (induction i xs rule: adapter_calls_to.induct) simp_all

lemma emits_append: "emits (xs @ ys) = emits xs @ emits ys"
  by (induction xs rule: emits.induct) simp_all

lemma call_all_append_ok:
  "\<not> fst (call_all (xs @ ys) a) \<Longrightarrow>
     \<not> fst (call_all xs a) \<and> \<not> fst (call_all ys a)
     \<and> snd (call_all (xs @ ys) a) = snd (call_all xs a) @ snd (call_all ys a)"
  by (induction xs) (auto split: if_splits)

lemma calls_to_call_all_none:
  "\<forall>l \<in> set ls. hid (target l) = i \<longrightarrow> \<not> guard l a \<Longrightarrow> calls_to i (snd (call_all ls a)) = []"
  by (induction ls) auto

lemma calls_to_call_all_mem:
  "l \<in> set ls \<Longrightarrow> guard l a \<Longrightarrow> \<not> fst (call_all ls a) \<Longrightarrow>
     a \<in> set (calls_to (hid (target l)) (snd (call_all ls a)))"
  by (induction ls) (auto split: if_splits)

lemma adapter_calls_to_call_all: "adapter_calls_to i (snd (call_all ls a)) = []"
  by (induction ls) auto

lemma emits_call_all: "emits (snd (call_all ls a)) = []"
  by (induction ls) auto

lemma listeners_on_on:
  "listeners_on (on ch l em) c = listeners_on em c @ (if c = ch then [l] else [])"
  by (simp add: listeners_on_def on_def)

lemma calls_to_emit: "calls_to i (snd (emit em ch a)) = calls_to i (snd (call_all (listeners_on em ch) a))"
  by (simp add: emit_def)

lemma fst_emit_ok: "\<not> fst (emit em ch a) \<Longrightarrow> \<not> fst (call_all (listeners_on em ch) a)"
  by (simp add: emit_def split: if_splits)

lemma adapter_calls_to_emit: "adapter_calls_to i (snd (emit em ch a)) = []"
  by (simp add: emit_def adapter_calls_to_call_all)

lemma emits_emit: "emits (snd (emit em ch a)) = [(ch, a)]"
  by (simp add: emit_def emits_call_all)

lemma calls_to_emit_none:
  "\<forall>l \<in> set (listeners_on em ch). hid (target l) = i \<longrightarrow> \<not> guard l a \<Longrightarrow>
     calls_to i (snd (emit em ch a)) = []"
  by (simp add: calls_to_emit calls_to_call_all_none)


section \<open>Properties of the EventServer: buffering and the drain\<close>

lemma publish_all_buffers:
  "\<not> started es \<Longrightarrow> publish_all calls es = es\<lparr>buffer := buffer es @ map envelope_of calls\<rparr>"
proof (induction calls arbitrary: es)
  case Nil
  then show ?case by simp
next
  case (Cons c calls)
  obtain pe health now ev payload where c: "c = Publish pe health now ev payload" by (cases c)
  let ?es1 = "es\<lparr>buffer := buffer es @ [envelope_of c]\<rparr>"
  have s1: "snd (EventServer_publish pe health now ev payload es) = ?es1"
    using Cons.prems by (simp add: EventServer_publish_def c)
  have "\<not> started ?es1" using Cons.prems by simp
  from Cons.IH [OF this] show ?case by (simp add: c s1 del: envelope_of.simps)
qed

lemma drain_frame:
  "local (drain envs es) = local es \<and> adapters (drain envs es) = adapters es
   \<and> started (drain envs es) = started es \<and> buffer (drain envs es) = buffer es"
  by (induction envs arbitrary: es) simp_all

lemma drain_ok:
  "\<forall>env \<in> set envs. \<not> fst (deliver (local es) (adapters es) env) \<Longrightarrow>
     drain envs es = es\<lparr>trace := trace es @ concat (map (\<lambda>env. snd (deliver (local es) (adapters es) env)) envs)\<rparr>"
proof (induction envs arbitrary: es)
  case Nil
  then show ?case by simp
next
  case (Cons env envs)
  let ?es1 = "es\<lparr>trace := trace es @ snd (deliver (local es) (adapters es) env)\<rparr>"
  have "\<forall>e \<in> set envs. \<not> fst (deliver (local ?es1) (adapters ?es1) e)"
    using Cons.prems by simp
  from Cons.IH [OF this] show ?case using Cons.prems by simp
qed

lemma adapter_calls_to_adapter_publish:
  "adapter_calls_to i (adapter_publish em env ad) = (if adapter_id ad = i then [env] else [])"
  by (cases ad) (simp_all add: adapter_calls_to_emit)

lemma adapter_calls_to_adapters:
  "distinct (map adapter_id ads) \<Longrightarrow>
     adapter_calls_to i (concat (map (adapter_publish em env) ads))
       = (if i \<in> adapter_id ` set ads then [env] else [])"
proof (induction ads)
  case Nil
  then show ?case by simp
next
  case (Cons ad ads)
  then show ?case
    by (auto simp: adapter_calls_to_append adapter_calls_to_adapter_publish)
qed

lemma adapter_calls_to_deliver:
  assumes "distinct (map adapter_id ads)" and "\<not> fst (deliver em ads env)" and "ad \<in> set ads"
  shows "adapter_calls_to (adapter_id ad) (snd (deliver em ads env)) = [env]"
  using assms
  by (simp add: deliver_def adapter_calls_to_append adapter_calls_to_emit adapter_calls_to_adapters
      split: if_splits)

lemma adapter_calls_to_blocks:
  assumes "distinct (map adapter_id ads)" and "ad \<in> set ads"
    and "\<forall>env \<in> set envs. \<not> fst (deliver em ads env)"
  shows "adapter_calls_to (adapter_id ad) (concat (map (\<lambda>env. snd (deliver em ads env)) envs)) = envs"
  using assms(3)
proof (induction envs)
  case Nil
  then show ?case by simp
next
  case (Cons env envs)
  then show ?case
    using adapter_calls_to_deliver [OF assms(1) _ assms(2), of em env]
    by (simp add: adapter_calls_to_append)
qed

lemma emits_deliver:
  "\<not> fst (deliver em ads env) \<Longrightarrow> take 2 (emits (snd (deliver em ads env))) = [(event env, env), (''*'', env)]"
  by (simp add: deliver_def emits_append emits_emit split: if_splits)

text \<open>A sufficient condition for a delivery not to throw: no registered handler
  throws, and the envelope is not an event named \<^verbatim>\<open>'error'\<close>.\<close>

lemma call_all_quiet:
  "\<forall>l \<in> set ls. \<not> throws_on (target l) a \<Longrightarrow> \<not> fst (call_all ls a)"
  by (induction ls) simp_all

lemma emit_quiet:
  "\<forall>p \<in> set em. \<not> throws_on (target (snd p)) a \<Longrightarrow> ch \<noteq> ''error'' \<Longrightarrow> \<not> fst (emit em ch a)"
  by (simp add: emit_def listeners_on_def call_all_quiet)

lemma deliver_quiet:
  "\<forall>p \<in> set em. \<not> throws_on (target (snd p)) env \<Longrightarrow> event env \<noteq> ''error'' \<Longrightarrow>
     \<not> fst (deliver em ads env)"
  by (simp add: deliver_def emit_quiet)

text \<open>
  The drain when no emit throws.  On a server that is not started, every \<^verbatim>\<open>publish\<close>
  appends its envelope to the buffer and delivers nothing.  \<^verbatim>\<open>start()\<close> then empties the
  buffer and the trace grows by the deliveries of the buffered envelopes, in publish
  order, each delivery being the one \<^verbatim>\<open>publish\<close> performs on a started server: it starts
  with one emit on the envelope's event channel and one on \<^verbatim>\<open>'*'\<close>, and gives the envelope
  once to every registered adapter (an echo adapter then emits it once more on its event
  channel).  A \<^verbatim>\<open>publish\<close> after \<^verbatim>\<open>start()\<close> delivers at once.
\<close>

lemma drain_without_throw:
  assumes "\<not> started es"
    and "\<forall>env \<in> set (buffer es @ map envelope_of calls). \<not> fst (deliver (local es) (adapters es) env)"
    and "distinct (map adapter_id (adapters es))"
  shows "publish_all calls es = es\<lparr>buffer := buffer es @ map envelope_of calls\<rparr>
    \<and> EventServer_start (publish_all calls es)
        = es\<lparr>started := True, buffer := [],
             trace := trace es @ concat (map (\<lambda>env. snd (deliver (local es) (adapters es) env))
                                          (buffer es @ map envelope_of calls))\<rparr>
    \<and> (\<forall>env \<in> set (buffer es @ map envelope_of calls).
          take 2 (emits (snd (deliver (local es) (adapters es) env))) = [(event env, env), (''*'', env)])
    \<and> (\<forall>ad \<in> set (adapters es).
          adapter_calls_to (adapter_id ad)
            (concat (map (\<lambda>env. snd (deliver (local es) (adapters es) env)) (buffer es @ map envelope_of calls)))
          = buffer es @ map envelope_of calls)
    \<and> EventServer_publish pe health now ev payload (EventServer_start (publish_all calls es))
        = (fst (deliver (local es) (adapters es) (mk_envelope pe health now ev payload)),
           (EventServer_start (publish_all calls es))
             \<lparr>trace := trace (EventServer_start (publish_all calls es))
                        @ snd (deliver (local es) (adapters es) (mk_envelope pe health now ev payload))\<rparr>)"
proof -
  let ?envs = "buffer es @ map envelope_of calls"
  let ?es1 = "es\<lparr>buffer := ?envs\<rparr>"
  have b: "publish_all calls es = ?es1"
    by (rule publish_all_buffers [OF assms(1)])
  let ?es2 = "?es1\<lparr>started := True, buffer := []\<rparr>"
  have "\<forall>env \<in> set ?envs. \<not> fst (deliver (local ?es2) (adapters ?es2) env)"
    using assms(2) by simp
  from drain_ok [OF this]
  have s: "EventServer_start ?es1
        = es\<lparr>started := True, buffer := [],
             trace := trace es @ concat (map (\<lambda>env. snd (deliver (local es) (adapters es) env)) ?envs)\<rparr>"
    by (simp add: EventServer_start_def)
  have e: "\<forall>env \<in> set ?envs.
          take 2 (emits (snd (deliver (local es) (adapters es) env))) = [(event env, env), (''*'', env)]"
    using assms(2) emits_deliver by blast
  have a: "\<forall>ad \<in> set (adapters es).
          adapter_calls_to (adapter_id ad)
            (concat (map (\<lambda>env. snd (deliver (local es) (adapters es) env)) ?envs)) = ?envs"
    using adapter_calls_to_blocks [OF assms(3) _ assms(2)] by blast
  have p: "EventServer_publish pe health now ev payload (EventServer_start ?es1)
        = (fst (deliver (local es) (adapters es) (mk_envelope pe health now ev payload)),
           (EventServer_start ?es1)
             \<lparr>trace := trace (EventServer_start ?es1)
                        @ snd (deliver (local es) (adapters es) (mk_envelope pe health now ev payload))\<rparr>)"
    unfolding s by (simp add: EventServer_publish_def Let_def)
  show ?thesis
    unfolding b using s e a p by blast
qed

lemma drain_without_throw_example:
  "trace (EventServer_start
     (publish_all [Publish worker_env None 5 ''a'' (1::nat), Publish worker_env None 6 ''b'' 2]
        (EventServer_subscribe ''a'' (never_throws 0) (registerAdapter (Transport 9) EventServer_new))))
   = [Emit ''a'' (mk_envelope worker_env None 5 ''a'' 1), Called 0 (mk_envelope worker_env None 5 ''a'' 1),
      Emit ''*'' (mk_envelope worker_env None 5 ''a'' 1), AdapterPublish 9 (mk_envelope worker_env None 5 ''a'' 1),
      Emit ''b'' (mk_envelope worker_env None 6 ''b'' 2),
      Emit ''*'' (mk_envelope worker_env None 6 ''b'' 2), AdapterPublish 9 (mk_envelope worker_env None 6 ''b'' 2)]"
proof -
  let ?es = "EventServer_subscribe ''a'' (never_throws 0) (registerAdapter (Transport 9) EventServer_new) :: nat event_server"
  let ?calls = "[Publish worker_env None 5 ''a'' (1::nat), Publish worker_env None 6 ''b'' 2]"
  have h1: "\<not> started ?es" by code_simp
  have h2: "\<forall>env \<in> set (buffer ?es @ map envelope_of ?calls). \<not> fst (deliver (local ?es) (adapters ?es) env)"
    by code_simp
  have h3: "distinct (map adapter_id (adapters ?es))" by code_simp
  note t = drain_without_throw [OF h1 h2 h3, of worker_env None 7 "''c''" 3]
  have "trace (EventServer_start (publish_all ?calls ?es))
      = trace ?es @ concat (map (\<lambda>env. snd (deliver (local ?es) (adapters ?es) env)) (buffer ?es @ map envelope_of ?calls))"
    using t [THEN conjunct2, THEN conjunct1] by simp
  also have "\<dots> = [Emit ''a'' (mk_envelope worker_env None 5 ''a'' 1), Called 0 (mk_envelope worker_env None 5 ''a'' 1),
      Emit ''*'' (mk_envelope worker_env None 5 ''a'' 1), AdapterPublish 9 (mk_envelope worker_env None 5 ''a'' 1),
      Emit ''b'' (mk_envelope worker_env None 6 ''b'' 2),
      Emit ''*'' (mk_envelope worker_env None 6 ''b'' 2), AdapterPublish 9 (mk_envelope worker_env None 6 ''b'' 2)]"
    by code_simp
  finally show ?thesis .
qed

text \<open>
  C1.  What the code does when a subscriber throws during the drain.  A handler subscribed
  to \<^verbatim>\<open>'a'\<close> throws, another is subscribed to \<^verbatim>\<open>'b'\<close>; \<^verbatim>\<open>publish('a', 1)\<close> and
  \<^verbatim>\<open>publish('b', 2)\<close> are called before \<^verbatim>\<open>start()\<close>.  Both calls buffer and deliver nothing.
  \<^verbatim>\<open>start()\<close> empties the buffer with \<^verbatim>\<open>splice(0)\<close> and runs the whole loop inside one
  \<^verbatim>\<open>try/catch\<close>: the exception ends the loop at the first envelope, so the envelope
  published to \<^verbatim>\<open>'b'\<close> is never emitted, its subscriber is never called, and the buffer
  is empty afterwards.  On a started server the same two publishes deliver the second
  envelope although the first publish threw.
\<close>

theorem drain_drops_envelopes_after_throw:
  "trace (publish_all [Publish worker_env None 5 ''a'' (1::nat), Publish worker_env None 6 ''b'' 2]
        (EventServer_subscribe ''b'' (never_throws 1) (EventServer_subscribe ''a'' (always_throws 0) EventServer_new)))
   = []
  \<and> buffer (publish_all [Publish worker_env None 5 ''a'' (1::nat), Publish worker_env None 6 ''b'' 2]
        (EventServer_subscribe ''b'' (never_throws 1) (EventServer_subscribe ''a'' (always_throws 0) EventServer_new)))
   = [mk_envelope worker_env None 5 ''a'' 1, mk_envelope worker_env None 6 ''b'' 2]
  \<and> trace (EventServer_start
     (publish_all [Publish worker_env None 5 ''a'' (1::nat), Publish worker_env None 6 ''b'' 2]
        (EventServer_subscribe ''b'' (never_throws 1) (EventServer_subscribe ''a'' (always_throws 0) EventServer_new))))
   = [Emit ''a'' (mk_envelope worker_env None 5 ''a'' 1), Called 0 (mk_envelope worker_env None 5 ''a'' 1)]
  \<and> buffer (EventServer_start
     (publish_all [Publish worker_env None 5 ''a'' (1::nat), Publish worker_env None 6 ''b'' 2]
        (EventServer_subscribe ''b'' (never_throws 1) (EventServer_subscribe ''a'' (always_throws 0) EventServer_new))))
   = []
  \<and> trace (publish_all [Publish worker_env None 5 ''a'' (1::nat), Publish worker_env None 6 ''b'' 2]
        (EventServer_start
           (EventServer_subscribe ''b'' (never_throws 1) (EventServer_subscribe ''a'' (always_throws 0) EventServer_new))))
   = [Emit ''a'' (mk_envelope worker_env None 5 ''a'' 1), Called 0 (mk_envelope worker_env None 5 ''a'' 1),
      Emit ''b'' (mk_envelope worker_env None 6 ''b'' 2), Called 1 (mk_envelope worker_env None 6 ''b'' 2),
      Emit ''*'' (mk_envelope worker_env None 6 ''b'' 2)]"
  by code_simp

section \<open>Properties of the EventServer: wildcard subscriptions\<close>

lemma subscribe_wild_local:
  "topic = ''*'' \<or> endsWith_star topic \<Longrightarrow>
     local (EventServer_subscribe topic h es) = local es @ [(''*'', subscribe_fn topic h), (topic, subscribe_fn topic h)]"
  by (simp add: EventServer_subscribe_def Let_def on_def)

lemma subscribe_frame:
  "started (EventServer_subscribe topic h es) = started es
   \<and> adapters (EventServer_subscribe topic h es) = adapters es
   \<and> trace (EventServer_subscribe topic h es) = trace es
   \<and> buffer (EventServer_subscribe topic h es) = buffer es"
  by (simp add: EventServer_subscribe_def Let_def)

lemma guard_subscribe_fn:
  "guard (subscribe_fn topic h) env =
     (topic = ''*'' \<or> topic = ''zapi:*'' \<or> event env = topic
      \<or> (endsWith_star topic \<and> startsWith (event env) (butlast topic)))"
  by (simp add: subscribe_fn_def)

lemma target_subscribe_fn: "target (subscribe_fn topic h) = h"
  by (simp add: subscribe_fn_def)

lemma startsWith_self: "endsWith_star topic \<Longrightarrow> startsWith topic (butlast topic)"
  by (simp add: startsWith_def endsWith_star_def butlast_conv_take)

lemma called_when_guard:
  assumes mem: "(''*'', l) \<in> set em" and g: "guard l env" and ok: "\<not> fst (deliver em ads env)"
  shows "env \<in> set (calls_to (hid (target l)) (snd (deliver em ads env)))"
proof -
  have ok1: "\<not> fst (emit em (event env) env)" and ok2: "\<not> fst (emit em ''*'' env)"
    using ok by (auto simp: deliver_def split: if_splits)
  have "l \<in> set (listeners_on em ''*'')"
    using mem by (force simp: listeners_on_def)
  from calls_to_call_all_mem [OF this g fst_emit_ok [OF ok2]]
  have "env \<in> set (calls_to (hid (target l)) (snd (emit em ''*'' env)))"
    by (simp add: calls_to_emit)
  then show ?thesis
    using ok1 ok2 by (simp add: deliver_def calls_to_append)
qed

lemma calls_to_adapter_publish_none:
  "\<forall>l \<in> set (listeners_on em (event env)). hid (target l) = i \<longrightarrow> \<not> guard l env \<Longrightarrow>
     calls_to i (adapter_publish em env ad) = []"
  by (cases ad) (simp_all add: calls_to_emit_none)

lemma calls_to_adapters_none:
  "\<forall>l \<in> set (listeners_on em (event env)). hid (target l) = i \<longrightarrow> \<not> guard l env \<Longrightarrow>
     calls_to i (concat (map (adapter_publish em env) ads)) = []"
  by (induction ads) (simp_all add: calls_to_append calls_to_adapter_publish_none)

lemma never_called_without_guard:
  assumes "\<forall>p \<in> set em. hid (target (snd p)) = i \<longrightarrow> \<not> guard (snd p) env"
  shows "calls_to i (snd (deliver em ads env)) = []"
proof -
  have "\<And>ch. \<forall>l \<in> set (listeners_on em ch). hid (target l) = i \<longrightarrow> \<not> guard l env"
    using assms by (auto simp: listeners_on_def)
  then show ?thesis
    by (simp add: deliver_def calls_to_append calls_to_emit_none calls_to_adapters_none)
qed

lemma called_once_on_star:
  assumes fresh: "\<forall>p \<in> set em. hid (target (snd p)) \<noteq> hid (target l)"
    and ch: "topic \<noteq> ''*''" "event env \<noteq> topic" "event env \<noteq> ''*''"
    and g: "guard l env"
    and ok: "\<not> fst (deliver (em @ [(''*'', l), (topic, l)]) ads env)"
  shows "calls_to (hid (target l)) (snd (deliver (em @ [(''*'', l), (topic, l)]) ads env)) = [env]"
proof -
  let ?em = "em @ [(''*'', l), (topic, l)]"
  let ?i = "hid (target l)"
  have ok1: "\<not> fst (emit ?em (event env) env)" and ok2: "\<not> fst (emit ?em ''*'' env)"
    using ok by (auto simp: deliver_def split: if_splits)
  have lev: "listeners_on ?em (event env) = listeners_on em (event env)"
    using ch by (simp add: listeners_on_def)
  have lst: "listeners_on ?em ''*'' = listeners_on em ''*'' @ [l]"
    using ch by (simp add: listeners_on_def)
  have old: "\<And>c. \<forall>x \<in> set (listeners_on em c). hid (target x) = ?i \<longrightarrow> \<not> guard x env"
    using fresh by (auto simp: listeners_on_def)
  have e1: "calls_to ?i (snd (emit ?em (event env) env)) = []"
    using old [of "event env"] by (simp add: calls_to_emit_none lev)
  have ad: "calls_to ?i (concat (map (adapter_publish ?em env) ads)) = []"
    using old [of "event env"] by (simp add: calls_to_adapters_none lev)
  have nt: "\<not> fst (call_all (listeners_on em ''*'' @ [l]) env)"
    using fst_emit_ok [OF ok2] by (simp add: lst)
  from call_all_append_ok [OF nt]
  have sp: "snd (call_all (listeners_on em ''*'' @ [l]) env)
              = snd (call_all (listeners_on em ''*'') env) @ snd (call_all [l] env)"
    and nl: "\<not> fst (call_all [l] env)" by simp_all
  have "calls_to ?i (snd (call_all [l] env)) = [env]"
    using g nl by (simp split: if_splits)
  then have e2: "calls_to ?i (snd (emit ?em ''*'' env)) = [env]"
    using old [of "''*''"] by (simp add: calls_to_emit lst sp calls_to_append calls_to_call_all_none)
  show ?thesis
    using ok1 ok2 e1 e2 ad by (simp add: deliver_def calls_to_append)
qed

lemma delivered_by_publish_started:
  "started es \<Longrightarrow> delivered_by_publish pe health now ev payload es
     = snd (deliver (local es) (adapters es) (mk_envelope pe health now ev payload))"
  by (simp add: delivered_by_publish_def EventServer_publish_def Let_def)

lemma publish_started_fst:
  "started es \<Longrightarrow> fst (EventServer_publish pe health now ev payload es)
     = fst (deliver (local es) (adapters es) (mk_envelope pe health now ev payload))"
  by (simp add: EventServer_publish_def Let_def)

lemma event_mk_envelope: "event (mk_envelope pe health now ev payload) = ev"
  by (simp add: mk_envelope_def)

text \<open>
  C4.  On a started server, for a \<^verbatim>\<open>publish\<close> that completes without an emit throwing, and
  a handler subscribed with a wildcard topic (its identity not shared with an earlier
  listener): subscribed with \<^verbatim>\<open>'*'\<close> or with \<^verbatim>\<open>'zapi:*'\<close>, which the closure treats alike,
  the handler is invoked with the envelope whatever the event name; subscribed with any
  other topic that ends in \<^verbatim>\<open>*\<close>, it is invoked exactly when the event name starts with the
  topic without its final \<^verbatim>\<open>*\<close>, and exactly once when the event name is neither the topic
  itself nor \<^verbatim>\<open>'*'\<close>.
\<close>

theorem wildcard_subscription_receives:
  assumes st: "started es"
    and fresh: "\<forall>p \<in> set (local es). hid (target (snd p)) \<noteq> hid h"
    and wild: "topic = ''*'' \<or> endsWith_star topic"
    and ok: "\<not> fst (EventServer_publish pe health now ev payload (EventServer_subscribe topic h es))"
  shows "(topic = ''*'' \<or> topic = ''zapi:*'' \<longrightarrow>
            mk_envelope pe health now ev payload
              \<in> set (calls_to (hid h) (delivered_by_publish pe health now ev payload (EventServer_subscribe topic h es))))
       \<and> (topic \<noteq> ''*'' \<and> topic \<noteq> ''zapi:*'' \<longrightarrow>
            (mk_envelope pe health now ev payload
              \<in> set (calls_to (hid h) (delivered_by_publish pe health now ev payload (EventServer_subscribe topic h es))))
            = startsWith ev (butlast topic))
       \<and> (topic \<noteq> ''*'' \<and> topic \<noteq> ''zapi:*'' \<and> ev \<noteq> topic \<and> ev \<noteq> ''*'' \<longrightarrow>
            calls_to (hid h) (delivered_by_publish pe health now ev payload (EventServer_subscribe topic h es))
            = (if startsWith ev (butlast topic) then [mk_envelope pe health now ev payload] else []))"
proof -
  let ?es = "EventServer_subscribe topic h es"
  let ?env = "mk_envelope pe health now ev payload"
  let ?fn = "subscribe_fn topic h"
  let ?em = "local es @ [(''*'', ?fn), (topic, ?fn)]"
  have st': "started ?es" using st by (simp add: subscribe_frame)
  have loc: "local ?es = ?em" by (rule subscribe_wild_local [OF wild])
  have ads: "adapters ?es = adapters es" by (simp add: subscribe_frame)
  have new: "delivered_by_publish pe health now ev payload ?es = snd (deliver ?em (adapters es) ?env)"
    by (simp add: delivered_by_publish_started [OF st'] loc ads)
  have okd: "\<not> fst (deliver ?em (adapters es) ?env)"
    using ok by (simp add: publish_started_fst [OF st'] loc ads)
  have mem: "(''*'', ?fn) \<in> set ?em" by simp
  have tg: "hid (target ?fn) = hid h" by (simp add: target_subscribe_fn)
  have yes: "guard ?fn ?env \<Longrightarrow> ?env \<in> set (calls_to (hid h) (snd (deliver ?em (adapters es) ?env)))"
    using called_when_guard [OF mem _ okd] by (simp add: tg)
  have no: "\<not> guard ?fn ?env \<Longrightarrow> calls_to (hid h) (snd (deliver ?em (adapters es) ?env)) = []"
  proof -
    assume ng: "\<not> guard ?fn ?env"
    have "\<forall>p \<in> set ?em. hid (target (snd p)) = hid h \<longrightarrow> \<not> guard (snd p) ?env"
      using fresh ng by (auto simp: target_subscribe_fn)
    then show ?thesis by (rule never_called_without_guard)
  qed
  have g_all: "topic = ''*'' \<or> topic = ''zapi:*'' \<Longrightarrow> guard ?fn ?env"
    by (auto simp: guard_subscribe_fn)
  have g_pre: "topic \<noteq> ''*'' \<Longrightarrow> topic \<noteq> ''zapi:*'' \<Longrightarrow> guard ?fn ?env = startsWith ev (butlast topic)"
    using wild startsWith_self [of topic]
    by (auto simp: guard_subscribe_fn event_mk_envelope)
  have c1: "topic = ''*'' \<or> topic = ''zapi:*'' \<longrightarrow> ?env \<in> set (calls_to (hid h) (delivered_by_publish pe health now ev payload ?es))"
    using yes g_all by (simp add: new)
  have c2: "topic \<noteq> ''*'' \<and> topic \<noteq> ''zapi:*'' \<longrightarrow>
            (?env \<in> set (calls_to (hid h) (delivered_by_publish pe health now ev payload ?es)))
            = startsWith ev (butlast topic)"
    using yes no g_pre by (auto simp: new)
  have c3: "topic \<noteq> ''*'' \<and> topic \<noteq> ''zapi:*'' \<and> ev \<noteq> topic \<and> ev \<noteq> ''*'' \<longrightarrow>
            calls_to (hid h) (delivered_by_publish pe health now ev payload ?es)
            = (if startsWith ev (butlast topic) then [?env] else [])"
  proof (intro impI, elim conjE)
    assume t: "topic \<noteq> ''*''" "topic \<noteq> ''zapi:*''" and e: "ev \<noteq> topic" "ev \<noteq> ''*''"
    show "calls_to (hid h) (delivered_by_publish pe health now ev payload ?es)
            = (if startsWith ev (butlast topic) then [?env] else [])"
    proof (cases "guard ?fn ?env")
      case True
      have fr: "\<forall>p \<in> set (local es). hid (target (snd p)) \<noteq> hid (target ?fn)"
        using fresh by (simp add: tg)
      have "calls_to (hid (target ?fn)) (snd (deliver ?em (adapters es) ?env)) = [?env]"
        by (rule called_once_on_star [OF fr t(1) _ _ True okd]) (simp_all add: event_mk_envelope e)
      then show ?thesis using True g_pre [OF t] by (simp add: new tg)
    next
      case False
      then show ?thesis using no g_pre [OF t] by (simp add: new)
    qed
  qed
  show ?thesis using c1 c2 c3 by blast
qed

theorem wildcard_subscription_receives_witness:
  "calls_to 0 (delivered_by_publish worker_env None 5 ''ns:x'' (7::nat)
       (EventServer_subscribe ''ns:*'' (never_throws 0) (EventServer_start EventServer_new)))
     = [mk_envelope worker_env None 5 ''ns:x'' 7]
   \<and> calls_to 0 (delivered_by_publish worker_env None 5 ''nt:x'' (7::nat)
       (EventServer_subscribe ''ns:*'' (never_throws 0) (EventServer_start EventServer_new))) = []"
proof -
  let ?es = "EventServer_start EventServer_new :: nat event_server"
  have st: "started ?es" by (simp add: EventServer_start_def EventServer_new_def)
  have fresh: "\<forall>p \<in> set (local ?es). hid (target (snd p)) \<noteq> hid (never_throws 0 :: nat envelope handler)"
    by (simp add: EventServer_start_def EventServer_new_def)
  have wild: "''ns:*'' = ''*'' \<or> endsWith_star ''ns:*''" by (simp add: endsWith_star_def)
  have ok1: "\<not> fst (EventServer_publish worker_env None 5 ''ns:x'' (7::nat) (EventServer_subscribe ''ns:*'' (never_throws 0) ?es))"
    by (simp add: EventServer_publish_def EventServer_subscribe_def EventServer_start_def EventServer_new_def
        Let_def on_def deliver_def emit_def listeners_on_def mk_envelope_def subscribe_fn_def never_throws_def
        endsWith_star_def startsWith_def)
  have ok2: "\<not> fst (EventServer_publish worker_env None 5 ''nt:x'' (7::nat) (EventServer_subscribe ''ns:*'' (never_throws 0) ?es))"
    by (simp add: EventServer_publish_def EventServer_subscribe_def EventServer_start_def EventServer_new_def
        Let_def on_def deliver_def emit_def listeners_on_def mk_envelope_def subscribe_fn_def never_throws_def
        endsWith_star_def startsWith_def)
  have h: "hid (never_throws 0 :: nat envelope handler) = 0" by (simp add: never_throws_def)
  show ?thesis
    using wildcard_subscription_receives [OF st fresh wild ok1] wildcard_subscription_receives [OF st fresh wild ok2]
    by (simp add: h startsWith_def)
qed

text \<open>
  The claim as stated fails.  A handler subscribed with \<^verbatim>\<open>'*'\<close> is attached to the
  channel \<^verbatim>\<open>'*'\<close> twice and is invoked twice for one published envelope; a handler
  subscribed with the prefix pattern \<^verbatim>\<open>'zapi:*'\<close> is invoked for \<^verbatim>\<open>'orders:new'\<close>,
  which does not start with \<^verbatim>\<open>'zapi:'\<close>; a handler subscribed with \<^verbatim>\<open>'ns:*'\<close> is invoked
  twice for an event named \<^verbatim>\<open>'ns:*'\<close>; and behind a subscriber of \<^verbatim>\<open>'orders:new'\<close> that
  throws, a handler subscribed with \<^verbatim>\<open>'*'\<close> is not invoked at all.
\<close>

theorem wildcard_subscription_counterexample:
  "calls_to 0 (delivered_by_publish worker_env None 5 ''orders:new'' (7::nat)
       (EventServer_subscribe ''*'' (never_throws 0) (EventServer_start EventServer_new)))
     = [mk_envelope worker_env None 5 ''orders:new'' 7, mk_envelope worker_env None 5 ''orders:new'' 7]
   \<and> \<not> startsWith ''orders:new'' ''zapi:''
   \<and> calls_to 0 (delivered_by_publish worker_env None 5 ''orders:new'' (7::nat)
       (EventServer_subscribe ''zapi:*'' (never_throws 0) (EventServer_start EventServer_new)))
     = [mk_envelope worker_env None 5 ''orders:new'' 7]
   \<and> calls_to 0 (delivered_by_publish worker_env None 5 ''ns:*'' (7::nat)
       (EventServer_subscribe ''ns:*'' (never_throws 0) (EventServer_start EventServer_new)))
     = [mk_envelope worker_env None 5 ''ns:*'' 7, mk_envelope worker_env None 5 ''ns:*'' 7]
   \<and> calls_to 0 (delivered_by_publish worker_env None 5 ''orders:new'' (7::nat)
       (EventServer_subscribe ''*'' (never_throws 0)
          (EventServer_subscribe ''orders:new'' (always_throws 1) (EventServer_start EventServer_new))))
     = []"
  by code_simp

section \<open>Properties of the remote subscriber\<close>

text \<open>
  What the function written for the pmessage listener does on a message: an envelope whose
  \<open>meta.pid\<close>, \<open>meta.workerIndex\<close> and \<open>origin\<close> all equal the identity it closes over is
  not re-emitted; a message that does not parse is dropped; any other envelope is emitted
  on its channel, and then on \<^verbatim>\<open>'*'\<close> unless the emit on its channel throws.
\<close>

lemma pmessage_function_body:
  "(is_self self env \<longrightarrow> RedisEventService_pmessage self channel (Parsed env) es = es)
   \<and> RedisEventService_pmessage self channel Unparseable es = es
   \<and> (\<not> is_self self env \<longrightarrow>
        reemitted self channel (Parsed env) es
          = (if fst (emit (local es) channel env) then [(channel, env)] else [(channel, env), (''*'', env)]))
   \<and> local (RedisEventService_pmessage self channel message es) = local es
   \<and> buffer (RedisEventService_pmessage self channel message es) = buffer es"
  by (cases message)
     (simp_all add: RedisEventService_pmessage_def reemitted_def emits_append emits_emit)

lemma start_never_attaches:
  "pmessage_listener (fst (snd (RedisEventService_start env es))) = None"
  by (simp add: RedisEventService_start_def RedisEventService_new_def Config_exports_def Let_def)

text \<open>
  C6.  What the code does.  \<^verbatim>\<open>getServerName\<close> is not exported by the configuration
  module, so \<^verbatim>\<open>start()\<close> never attaches the pmessage listener, whatever its environment:
  with Redis configured it registers the adapter, subscribes to \<^verbatim>\<open>'zapi:*'\<close> and then
  throws at the call of \<^verbatim>\<open>getServerName()\<close>.  Hence no received message changes the event
  server: an envelope of another process (its pid is 77, not 4242) that arrives on
  \<^verbatim>\<open>'zapi:x'\<close> is emitted neither on \<^verbatim>\<open>'zapi:x'\<close> nor on \<^verbatim>\<open>'*'\<close>, and the subscriber of
  \<^verbatim>\<open>'zapi:x'\<close> is not called.  The function written for the listener would have emitted it
  on both.
\<close>

theorem remote_listener_never_attached:
  "pmessage_listener (fst (snd (RedisEventService_start env es))) = None
   \<and> RedisEventService_received (fst (snd (RedisEventService_start env es))) channel message es' = es'
   \<and> RedisEventService_start leader_start_env (EventServer_subscribe ''zapi:x'' (never_throws 0) EventServer_new)
      = (True, \<lparr>clients_created = True, psubscribed = True, pmessage_listener = None\<rparr>,
         registerAdapter (Transport 9) (EventServer_subscribe ''zapi:x'' (never_throws 0) EventServer_new :: nat event_server))
   \<and> \<not> is_self this_worker (mk_envelope (worker_env\<lparr>process_pid := 77\<rparr>) None 5 ''zapi:x'' (1::nat))
   \<and> trace (RedisEventService_received
        (fst (snd (RedisEventService_start leader_start_env
                     (EventServer_subscribe ''zapi:x'' (never_throws 0) EventServer_new :: nat event_server))))
        ''zapi:x'' (Parsed (mk_envelope (worker_env\<lparr>process_pid := 77\<rparr>) None 5 ''zapi:x'' (1::nat)))
        (registerAdapter (Transport 9) (EventServer_subscribe ''zapi:x'' (never_throws 0) EventServer_new)))
      = []
   \<and> reemitted this_worker ''zapi:x'' (Parsed (mk_envelope (worker_env\<lparr>process_pid := 77\<rparr>) None 5 ''zapi:x'' (1::nat)))
        (registerAdapter (Transport 9) (EventServer_subscribe ''zapi:x'' (never_throws 0) EventServer_new))
      = [(''zapi:x'', mk_envelope (worker_env\<lparr>process_pid := 77\<rparr>) None 5 ''zapi:x'' 1),
         (''*'', mk_envelope (worker_env\<lparr>process_pid := 77\<rparr>) None 5 ''zapi:x'' 1)]"
proof -
  have a: "pmessage_listener (fst (snd (RedisEventService_start env es))) = None"
    by (rule start_never_attaches)
  have b: "RedisEventService_received (fst (snd (RedisEventService_start env es))) channel message es' = es'"
    by (simp add: RedisEventService_received_def a)
  have c: "RedisEventService_start leader_start_env (EventServer_subscribe ''zapi:x'' (never_throws 0) EventServer_new)
      = (True, \<lparr>clients_created = True, psubscribed = True, pmessage_listener = None\<rparr>,
         registerAdapter (Transport 9) (EventServer_subscribe ''zapi:x'' (never_throws 0) EventServer_new :: nat event_server))"
    by (simp add: RedisEventService_start_def leader_start_env_def Config_exports_def Let_def)
  have d: "\<not> is_self this_worker (mk_envelope (worker_env\<lparr>process_pid := 77\<rparr>) None 5 ''zapi:x'' (1::nat))"
    by code_simp
  have e: "trace (RedisEventService_received
        (fst (snd (RedisEventService_start leader_start_env
                     (EventServer_subscribe ''zapi:x'' (never_throws 0) EventServer_new :: nat event_server))))
        ''zapi:x'' (Parsed (mk_envelope (worker_env\<lparr>process_pid := 77\<rparr>) None 5 ''zapi:x'' (1::nat)))
        (registerAdapter (Transport 9) (EventServer_subscribe ''zapi:x'' (never_throws 0) EventServer_new)))
      = []"
    by code_simp
  have f: "reemitted this_worker ''zapi:x'' (Parsed (mk_envelope (worker_env\<lparr>process_pid := 77\<rparr>) None 5 ''zapi:x'' (1::nat)))
        (registerAdapter (Transport 9) (EventServer_subscribe ''zapi:x'' (never_throws 0) EventServer_new))
      = [(''zapi:x'', mk_envelope (worker_env\<lparr>process_pid := 77\<rparr>) None 5 ''zapi:x'' 1),
         (''*'', mk_envelope (worker_env\<lparr>process_pid := 77\<rparr>) None 5 ''zapi:x'' 1)]"
    by code_simp
  show ?thesis using a b c d e f by blast
qed

section \<open>Properties of the MessageBus\<close>

lemma trim_all_whitespace: "\<forall>c \<in> set s. is_js_whitespace c \<Longrightarrow> js_trim s = []"
  by (auto simp: js_trim_def dest: set_dropWhileD)

text \<open>
  C10.  \<^verbatim>\<open>MessageBus.publish(topic, payload)\<close> with a topic that coerces and trims to the
  empty string leaves the bus as it was, for every payload and whether or not the remote
  side is attached: nothing is emitted locally, nothing is published remotely.
  \<^verbatim>\<open>undefined\<close>, \<^verbatim>\<open>null\<close>, \<^verbatim>\<open>''\<close>, \<^verbatim>\<open>false\<close>, \<^verbatim>\<open>0\<close> and every string of white space are
  such topics.  (For any other topic the publish does emit, on the trimmed topic.)
\<close>

theorem publish_empty_topic_noop:
  "(topic_of topic = [] \<longrightarrow> MessageBus_publish topic payload bus = bus)
   \<and> (topic = JUndefined \<or> topic = JNull \<or> topic = JStr [] \<or> topic = JBool False \<or> topic = JNum 0
        \<longrightarrow> topic_of topic = [])
   \<and> ((\<forall>c \<in> set s. is_js_whitespace c) \<longrightarrow> topic_of (JStr s) = [])
   \<and> (topic_of topic \<noteq> [] \<longrightarrow>
        emits (bus_trace (MessageBus_publish topic payload bus)) = emits (bus_trace bus) @ [(topic_of topic, payload)])"
proof -
  have a: "topic_of topic = [] \<longrightarrow> MessageBus_publish topic payload bus = bus"
    by (simp add: MessageBus_publish_def)
  have b: "topic = JUndefined \<or> topic = JNull \<or> topic = JStr [] \<or> topic = JBool False \<or> topic = JNum 0
        \<longrightarrow> topic_of topic = []"
    by (auto simp: topic_of_def js_trim_def)
  have c: "(\<forall>c \<in> set s. is_js_whitespace c) \<longrightarrow> topic_of (JStr s) = []"
  proof (cases "s = []")
    case True
    then show ?thesis by (simp add: topic_of_def js_trim_def)
  next
    case False
    then show ?thesis by (simp add: topic_of_def trim_all_whitespace)
  qed
  have d: "topic_of topic \<noteq> [] \<longrightarrow>
        emits (bus_trace (MessageBus_publish topic payload bus)) = emits (bus_trace bus) @ [(topic_of topic, payload)]"
    by (simp add: MessageBus_publish_def Let_def emits_append emits_emit)
  show ?thesis using a b c d by blast
qed


theorem publish_empty_topic_noop_witness:
  "topic_of (JStr [CHR 0x20, CHR 0x09, CHR 0x0A]) = []
   \<and> MessageBus_publish (JStr [CHR 0x20, CHR 0x09, CHR 0x0A]) (5::nat)
        (MessageBus_subscribe (JStr ''room:1'') (never_throws 0) attached_bus)
      = MessageBus_subscribe (JStr ''room:1'') (never_throws 0) attached_bus
   \<and> MessageBus_publish JNull (5::nat) (attached_bus\<lparr>redisAttached := False\<rparr>) = attached_bus\<lparr>redisAttached := False\<rparr>
   \<and> topic_of (JStr '' room:1 '') = ''room:1''
   \<and> emits (bus_trace (MessageBus_publish (JStr '' room:1 '') (5::nat) attached_bus)) = [(''room:1'', 5)]"
proof -
  have w: "\<forall>c \<in> set [CHR 0x20, CHR 0x09, CHR 0x0A]. is_js_whitespace c"
    by (simp add: is_js_whitespace_def)
  have t: "topic_of (JStr '' room:1 '') = ''room:1''"
    by (simp add: topic_of_def js_trim_def is_js_whitespace_def)
  have e: "emits (bus_trace (attached_bus :: nat message_bus)) = []" by (simp add: attached_bus_def)
  show ?thesis
    using w t e
      publish_empty_topic_noop [of "JStr [CHR 0x20, CHR 0x09, CHR 0x0A]" "5::nat"
        "MessageBus_subscribe (JStr ''room:1'') (never_throws 0) attached_bus" "[CHR 0x20, CHR 0x09, CHR 0x0A]"]
      publish_empty_topic_noop [of JNull "5::nat" "attached_bus\<lparr>redisAttached := False\<rparr>" "[]"]
      publish_empty_topic_noop [of "JStr '' room:1 ''" "5::nat" attached_bus "[]"]
    by simp
qed

section \<open>Properties of the heartbeat aggregator\<close>

lemma keys_onWorkerHeartbeat:
  "map fst (onWorkerHeartbeat evt now st)
     = (case evt of None \<Rightarrow> map fst st
        | Some e \<Rightarrow> if (evt_nodeId e, evt_pid e) \<in> fst ` set st then map fst st
                    else map fst st @ [(evt_nodeId e, evt_pid e)])"
  by (simp add: onWorkerHeartbeat_def update_keys split: option.splits)

lemma keyset_onWorkerHeartbeat:
  "fst ` set (onWorkerHeartbeat (Some e) now st) = insert (evt_nodeId e, evt_pid e) (fst ` set st)"
proof -
  have "set (map fst (onWorkerHeartbeat (Some e) now st)) = insert (evt_nodeId e, evt_pid e) (set (map fst st))"
    unfolding keys_onWorkerHeartbeat by auto
  then show ?thesis by simp
qed

lemma distinct_onWorkerHeartbeat:
  "distinct (map fst st) \<Longrightarrow> distinct (map fst (onWorkerHeartbeat evt now st))"
  by (simp add: onWorkerHeartbeat_def distinct_update split: option.splits)

lemma agg_run_keys:
  "agg_leader cfg \<Longrightarrow>
     set (map fst (hbState (agg_run cfg inputs a))) = set (map fst (hbState a)) \<union> set (keys_seen inputs)"
proof (induction inputs arbitrary: a rule: keys_seen.induct)
  case 1
  then show ?case by simp
next
  case (2 e now "is")
  then show ?case by (simp add: keyset_onWorkerHeartbeat)
next
  case (3 now "is")
  then show ?case by (simp add: onWorkerHeartbeat_def)
next
  case (4 now "is")
  then show ?case by simp
qed

lemma agg_run_distinct:
  "distinct (map fst (hbState a)) \<Longrightarrow> distinct (map fst (hbState (agg_run cfg inputs a)))"
proof (induction inputs arbitrary: a)
  case Nil
  then show ?case by simp
next
  case (Cons i "is")
  have "distinct (map fst (hbState (agg_step cfg i a)))"
    using Cons.prems by (cases i) (simp_all add: distinct_onWorkerHeartbeat)
  from Cons.IH [OF this] show ?case by simp
qed

lemma agg_run_append: "agg_run cfg (xs @ ys) a = agg_run cfg ys (agg_run cfg xs a)"
  by (induction xs arbitrary: a) simp_all

lemma published_grows:
  "\<exists>more. published (agg_run cfg inputs a) = published a @ more"
proof (induction inputs arbitrary: a)
  case Nil
  then show ?case by simp
next
  case (Cons i "is")
  have "\<exists>m1. published (agg_step cfg i a) = published a @ m1"
    by (cases i) simp_all
  then obtain m1 where m1: "published (agg_step cfg i a) = published a @ m1" by blast
  obtain m2 where "published (agg_run cfg is (agg_step cfg i a)) = published (agg_step cfg i a) @ m2"
    using Cons.IH by blast
  then show ?case by (simp add: m1)
qed

lemma observed_after_run:
  assumes "agg_leader cfg"
  shows "length (hbState (agg_run cfg inputs aggregator_new)) = card (set (keys_seen inputs))"
proof -
  let ?st = "hbState (agg_run cfg inputs aggregator_new)"
  have d: "distinct (map fst ?st)"
    by (rule agg_run_distinct) (simp add: aggregator_new_def)
  have "set (map fst ?st) = set (keys_seen inputs)"
    using agg_run_keys [OF assms, of inputs aggregator_new] by (simp add: aggregator_new_def)
  then have "card (set (keys_seen inputs)) = card (set (map fst ?st))" by simp
  also have "\<dots> = length (map fst ?st)" by (rule distinct_card [OF d])
  finally show ?thesis by simp
qed

text \<open>
  C7.  On a leader that publishes snapshots, every tick of the interval publishes one
  snapshot, whatever the counts are.  Its \<open>observed\<close> count is the number of distinct
  \<open>(nodeId, pid)\<close> keys among all heartbeat samples ingested since the aggregator was
  created: the map of samples is never cleared, so the keys of earlier windows stay.  Its
  \<open>expected\<close> count is \<^verbatim>\<open>Math.max(1, Number(cfg.express?.workers || 1))\<close>.
\<close>

theorem snapshot_observed_counts_all_keys:
  assumes "snapshots_enabled cfg"
  shows "length (published (agg_run cfg (before @ Tick now # after) aggregator_new))
           > length (published (agg_run cfg before aggregator_new))
    \<and> observed_total (published (agg_run cfg (before @ Tick now # after) aggregator_new)
                        ! length (published (agg_run cfg before aggregator_new)))
        = card (set (keys_seen before))
    \<and> expected_total (published (agg_run cfg (before @ Tick now # after) aggregator_new)
                        ! length (published (agg_run cfg before aggregator_new)))
        = expectedTotal cfg"
proof -
  let ?a = "agg_run cfg before aggregator_new"
  let ?snap = "snapshot_payload cfg now (hbState ?a)"
  have l: "agg_leader cfg" using assms by (simp add: snapshots_enabled_def)
  obtain more where m: "published (agg_run cfg after (agg_step cfg (Tick now) ?a))
                          = published (agg_step cfg (Tick now) ?a) @ more"
    using published_grows by blast
  have p: "published (agg_run cfg (before @ Tick now # after) aggregator_new) = published ?a @ ?snap # more"
    using assms m by (simp add: agg_run_append)
  have o: "observed_total ?snap = card (set (keys_seen before))"
    using observed_after_run [OF l, of before] by (simp add: snapshot_payload_def Let_def)
  have e: "expected_total ?snap = expectedTotal cfg"
    by (simp add: snapshot_payload_def Let_def)
  show ?thesis
    unfolding p using o e by (simp add: nth_append)
qed

theorem snapshot_observed_counts_all_keys_witness:
  "snapshots_enabled (leader_config 4)
   \<and> published (agg_run (leader_config 4)
        [Heartbeat (Some (beat ''n'' 1 10)) 1, Heartbeat (Some (beat ''n'' 2 20)) 2, Heartbeat (Some (beat ''n'' 1 30)) 3,
         Tick 5, Tick 9] aggregator_new)
     = [\<lparr>snap_ts = 5, expected_total = 4, observed_total = 2,
         stats_uptimeSec = \<lparr>stat_min = 1, stat_avg = 1, stat_max = 1\<rparr>,
         stats_rss = \<lparr>stat_min = 20, stat_avg = 25, stat_max = 30\<rparr>,
         stats_heapUsed = \<lparr>stat_min = 1, stat_avg = 1, stat_max = 1\<rparr>, snap_workers = None\<rparr>,
        \<lparr>snap_ts = 9, expected_total = 4, observed_total = 2,
         stats_uptimeSec = \<lparr>stat_min = 1, stat_avg = 1, stat_max = 1\<rparr>,
         stats_rss = \<lparr>stat_min = 20, stat_avg = 25, stat_max = 30\<rparr>,
         stats_heapUsed = \<lparr>stat_min = 1, stat_avg = 1, stat_max = 1\<rparr>, snap_workers = None\<rparr>]
   \<and> card (set (keys_seen [Heartbeat (Some (beat ''n'' 1 10)) 1, Heartbeat (Some (beat ''n'' 2 20)) 2,
                            Heartbeat (Some (beat ''n'' 1 30)) 3, Tick 5])) = 2"
proof -
  have h: "snapshots_enabled (leader_config 4)" by code_simp
  have p: "published (agg_run (leader_config 4)
        [Heartbeat (Some (beat ''n'' 1 10)) 1, Heartbeat (Some (beat ''n'' 2 20)) 2, Heartbeat (Some (beat ''n'' 1 30)) 3,
         Tick 5, Tick 9] aggregator_new)
     = [\<lparr>snap_ts = 5, expected_total = 4, observed_total = 2,
         stats_uptimeSec = \<lparr>stat_min = 1, stat_avg = 1, stat_max = 1\<rparr>,
         stats_rss = \<lparr>stat_min = 20, stat_avg = 25, stat_max = 30\<rparr>,
         stats_heapUsed = \<lparr>stat_min = 1, stat_avg = 1, stat_max = 1\<rparr>, snap_workers = None\<rparr>,
        \<lparr>snap_ts = 9, expected_total = 4, observed_total = 2,
         stats_uptimeSec = \<lparr>stat_min = 1, stat_avg = 1, stat_max = 1\<rparr>,
         stats_rss = \<lparr>stat_min = 20, stat_avg = 25, stat_max = 30\<rparr>,
         stats_heapUsed = \<lparr>stat_min = 1, stat_avg = 1, stat_max = 1\<rparr>, snap_workers = None\<rparr>]"
    by code_simp
  show ?thesis
    using h p snapshot_observed_counts_all_keys [OF h,
        of "[Heartbeat (Some (beat ''n'' 1 10)) 1, Heartbeat (Some (beat ''n'' 2 20)) 2,
             Heartbeat (Some (beat ''n'' 1 30)) 3, Tick 5]" 9 "[]"]
    by simp
qed

text \<open>
  The claim as stated fails: one sample, then two ticks.  No sample arrives between the
  first tick and the second, yet the second snapshot reports \<open>observed = 1\<close>.
\<close>

theorem snapshot_counts_stale_keys_counterexample:
  "observed_total (published (agg_run (leader_config 1) [Heartbeat (Some (beat ''n'' 1 10)) 1, Tick 5, Tick 9] aggregator_new) ! 1) = 1
   \<and> card (set (keys_seen (since_last_window [Heartbeat (Some (beat ''n'' 1 10)) 1, Tick 5]))) = 0"
  by code_simp

section \<open>Properties of the JobQueueServer\<close>

subsection \<open>Unregistered names\<close>

text \<open>
  C8.  \<^verbatim>\<open>enqueue(name, payload)\<close> with a name that has no registered definition throws
  \<^verbatim>\<open>Job "name" is not registered\<close> to its caller and leaves the whole server as it was: the
  in-memory queue, the remote list, the throttle state and every counter, hence
  \<^verbatim>\<open>getStats()\<close>.
\<close>

theorem enqueue_unregistered_throws:
  "map_of (jobs s) name = None \<longrightarrow>
     enqueue name payload env s = (Inl (JobNotRegistered name), s)
     \<and> getStats (snd (enqueue name payload env s)) = getStats s"
  by (simp add: enqueue_def)

theorem enqueue_unregistered_throws_witness:
  "map_of (jobs (JobQueueServer_init redis_config True False [(''Demo:Sleep'', always_succeeds :: nat job_def)])) ''Email:Send'' = None
   \<and> enqueue ''Email:Send'' (0::nat) (at_time 10) (JobQueueServer_init redis_config True False [(''Demo:Sleep'', always_succeeds)])
       = (Inl (JobNotRegistered ''Email:Send''), JobQueueServer_init redis_config True False [(''Demo:Sleep'', always_succeeds)])"
proof -
  have h: "map_of (jobs (JobQueueServer_init redis_config True False [(''Demo:Sleep'', always_succeeds :: nat job_def)])) ''Email:Send'' = None"
    by (simp add: JobQueueServer_init_def redis_config_def registerJob_def Let_def)
  show ?thesis
    using h enqueue_unregistered_throws [of "JobQueueServer_init redis_config True False [(''Demo:Sleep'', always_succeeds)]"
        "''Email:Send''" "0::nat" "at_time 10"]
    by simp
qed

subsection \<open>Statistics\<close>





lemma job_outcome_of_queue [simp]:
  "job_outcome_of (s\<lparr>queue := q\<rparr>) job = job_outcome_of s job"
  "job_outcome_of (s\<lparr>remote_jobq_all := r\<rparr>) job = job_outcome_of s job"
  by (simp_all add: job_outcome_of_def)














subsection \<open>Throttling\<close>

lemma pump_iteration_throttle:
  "throttleActive (pump_iteration blpop now s) = throttleActive s
   \<and> throttleEvents (stats (pump_iteration blpop now s)) = throttleEvents (stats s)"
  by (simp add: pump_iteration_def run_job_def Let_def split: blpop_outcome.splits list.splits)

text \<open>
  C2.  What the code does with \<open>throttlecount = 3\<close> in memory mode: the third enqueue
  turns throttling on; after a fourth enqueue, a start and three pump iterations, each
  consuming one job, the queue holds one job and \<^verbatim>\<open>getStats().throttleActive\<close> is still
  \<open>True\<close>, because only \<^verbatim>\<open>enqueue\<close> calls \<^verbatim>\<open>_maybeThrottle()\<close>; the next enqueue turns it
  off.
\<close>

theorem throttle_still_active_after_consumption:
  "v_throttleActive (getStats (jq_run
      [Enqueue ''Demo:Sleep'' (1::nat) (at_time 1), Enqueue ''Demo:Sleep'' 2 (at_time 2), Enqueue ''Demo:Sleep'' 3 (at_time 3)]
      (JobQueueServer_init (memory_config 3) False False [(''Demo:Sleep'', always_succeeds)]))) = True
   \<and> getStats (jq_run
      [Enqueue ''Demo:Sleep'' (1::nat) (at_time 1), Enqueue ''Demo:Sleep'' 2 (at_time 2), Enqueue ''Demo:Sleep'' 3 (at_time 3),
       Enqueue ''Demo:Sleep'' 4 (at_time 4), Start 0, Pump BlpopReplied 5, Pump BlpopReplied 6, Pump BlpopReplied 7]
      (JobQueueServer_init (memory_config 3) False False [(''Demo:Sleep'', always_succeeds)]))
     = \<lparr>v_totalJobs = 3, v_perRoute = [(''Demo:Sleep'', 3)], v_throttleEvents = 1, v_throttledMsTotal = 0,
        v_queueLength = Some 1, v_concurrency = 1, v_throttleActive = True\<rparr>
   \<and> getStats (jq_run
      [Enqueue ''Demo:Sleep'' (1::nat) (at_time 1), Enqueue ''Demo:Sleep'' 2 (at_time 2), Enqueue ''Demo:Sleep'' 3 (at_time 3),
       Enqueue ''Demo:Sleep'' 4 (at_time 4), Start 0, Pump BlpopReplied 5, Pump BlpopReplied 6, Pump BlpopReplied 7,
       Enqueue ''Demo:Sleep'' 5 (at_time 8)]
      (JobQueueServer_init (memory_config 3) False False [(''Demo:Sleep'', always_succeeds)]))
     = \<lparr>v_totalJobs = 3, v_perRoute = [(''Demo:Sleep'', 3)], v_throttleEvents = 1, v_throttledMsTotal = 5,
        v_queueLength = Some 2, v_concurrency = 1, v_throttleActive = False\<rparr>"
  by code_simp

subsection \<open>Remote-backed enqueue\<close>

lemma enqueue_remote_outcomes:
  assumes "map_of (jobs s) name \<noteq> None" and "redis s"
  shows "enqueue name payload (env\<lparr>enq_rpush := Pushed\<rparr>) s
           = (Inr (enq_now env, enq_random env),
              s\<lparr>remote_jobq_all := remote_jobq_all s
                   @ [\<lparr>job_id = (enq_now env, enq_random env), job_name = name, job_payload = payload, job_ts = enq_now env\<rparr>]\<rparr>)"
    and "enqueue name payload (env\<lparr>enq_rpush := PushThrows\<rparr>) s
           = (Inr (enq_now env, enq_random env),
              s\<lparr>queue := queue s
                   @ [\<lparr>job_id = (enq_now env, enq_random env), job_name = name, job_payload = payload, job_ts = enq_now env\<rparr>]\<rparr>)"
    and "enqueue name payload (env\<lparr>enq_rpush := PushRejects\<rparr>) s = (Inr (enq_now env, enq_random env), s)"
  using assms by (simp_all add: enqueue_def Let_def maybeThrottle_def)

text \<open>
  C5.  What the code does on a remote-backed server when \<^verbatim>\<open>rpush\<close> returns a promise that
  rejects: \<^verbatim>\<open>enqueue\<close> returns the job id and the server is unchanged; the job is neither
  in the remote list nor in the in-memory queue.
\<close>

theorem rejected_push_loses_job:
  "enqueue ''Demo:Sleep'' (1::nat) \<lparr>enq_now = 10, enq_random = ''k3x9qa'', enq_rpush = PushRejects\<rparr>
      (JobQueueServer_init redis_config True False [(''Demo:Sleep'', always_succeeds)])
    = (Inr (10, ''k3x9qa''), JobQueueServer_init redis_config True False [(''Demo:Sleep'', always_succeeds)])
   \<and> redis (JobQueueServer_init redis_config True False [(''Demo:Sleep'', always_succeeds :: nat job_def)])
   \<and> queue (JobQueueServer_init redis_config True False [(''Demo:Sleep'', always_succeeds :: nat job_def)]) = []
   \<and> remote_jobq_all (JobQueueServer_init redis_config True False [(''Demo:Sleep'', always_succeeds :: nat job_def)]) = []"
  by (simp add: enqueue_def JobQueueServer_init_def redis_config_def registerJob_def Let_def)

end
